theory Spec2Isabelle
  imports Complex_Main "HOL-Library.Sublist" "HOL-Library.Log_Nat"
begin

section \<open>Python values and exceptions\<close>

text \<open>
  The service is \<^verbatim>\<open>src/index.py\<close>. Python strings are modelled as \<open>string\<close>; a code
  point outside ASCII is its UTF-8 bytes, every one of which is at least 128, so the
  ASCII character classes of the identifier pattern treat both alike. Every
  \<^verbatim>\<open>raise\<close> of the source is a value \<open>Inl e\<close>; \<open>exn_str\<close> is \<^verbatim>\<open>str(e)\<close>.
\<close>

datatype exn =
    ValueError string
  | RuntimeError string
  | ZeroDivisionError string
  | DatabaseError string

fun exn_str :: "exn \<Rightarrow> string" where
  "exn_str (ValueError m) = m"
| "exn_str (RuntimeError m) = m"
| "exn_str (ZeroDivisionError m) = m"
| "exn_str (DatabaseError m) = m"

section \<open>Identifier validator\<close>

text \<open>
  \<^verbatim>\<open>_IDENT_RE = re.compile(r"^[A-Za-z_][A-Za-z0-9_]*$")\<close>, used through
  \<^verbatim>\<open>_IDENT_RE.match(name)\<close>. The character classes are ASCII ranges.
\<close>

definition is_upper :: "char \<Rightarrow> bool" where
  "is_upper c = (let k = (of_char c :: nat) in 65 \<le> k \<and> k \<le> 90)"

definition is_lower :: "char \<Rightarrow> bool" where
  "is_lower c = (let k = (of_char c :: nat) in 97 \<le> k \<and> k \<le> 122)"

definition is_digit :: "char \<Rightarrow> bool" where
  "is_digit c = (let k = (of_char c :: nat) in 48 \<le> k \<and> k \<le> 57)"

definition ident_start :: "char \<Rightarrow> bool" where
  "ident_start c = (is_upper c \<or> is_lower c \<or> c = CHR ''_'')"

definition ident_cont :: "char \<Rightarrow> bool" where
  "ident_cont c = (is_upper c \<or> is_lower c \<or> is_digit c \<or> c = CHR ''_'')"

text \<open>
  Python's \<^verbatim>\<open>$\<close> (no MULTILINE flag) matches at the end of the string and also just
  before a newline that is the last character of the string. \<open>re_dollar s\<close> is that
  test on the input \<open>s\<close> that remains.
\<close>

definition re_dollar :: "string \<Rightarrow> bool" where
  "re_dollar s = (s = [] \<or> s = [CHR 0x0A])"

text \<open>
  \<^verbatim>\<open>[A-Za-z0-9_]*$\<close> on the remaining input, with the backtracking of the star: it
  takes one more character of the class, or stops where \<^verbatim>\<open>$\<close> matches.
\<close>

fun re_cont_star_dollar :: "string \<Rightarrow> bool" where
  "re_cont_star_dollar [] = re_dollar []"
| "re_cont_star_dollar (c # s) =
     ((ident_cont c \<and> re_cont_star_dollar s) \<or> re_dollar (c # s))"

text \<open>\<^verbatim>\<open>_IDENT_RE.match(name)\<close> as a truth value: anchored at position 0.\<close>

definition IDENT_RE_match :: "string \<Rightarrow> bool" where
  "IDENT_RE_match name =
     (case name of [] \<Rightarrow> False | c # s \<Rightarrow> ident_start c \<and> re_cont_star_dollar s)"

text \<open>
  \<^verbatim>\<open>
  def _sanitize_ident(name: str) -> str:
      if not name:
          raise ValueError("Empty identifier")
      if not _IDENT_RE.match(name):
          raise ValueError(f"Invalid identifier: {name}")
      return name
  \<close>
\<close>

definition sanitize_ident :: "string \<Rightarrow> exn + string" where
  "sanitize_ident name =
     (if name = [] then Inl (ValueError ''Empty identifier'')
      else if \<not> IDENT_RE_match name then Inl (ValueError (''Invalid identifier: '' @ name))
      else Inr name)"

text \<open>
  The grammar of the specification, in its own words: a first character that is an
  ASCII letter or an underscore, then only ASCII letters, digits and underscores. It is
  the reference the validator is compared with.
\<close>

definition ident_grammar :: "string \<Rightarrow> bool" where
  "ident_grammar name =
     (case name of [] \<Rightarrow> False | c # s \<Rightarrow> ident_start c \<and> list_all ident_cont s)"

section \<open>The database, as the service sees it\<close>

text \<open>
  PostgreSQL and psycopg are outside the repository. Each SQL statement of the source is
  a constructor of \<open>statement\<close>, holding the identifiers interpolated into its text and
  the parameters bound to it; the answers of the database are the fields of \<open>world\<close>,
  one per statement, typed by the columns the statement selects (an aggregate without
  GROUP BY answers with exactly one row, so \<^verbatim>\<open>fetchone()\<close> has a row there). A field
  answers \<open>Inl e\<close> when \<^verbatim>\<open>cur.execute\<close> raises. The connection is opened with
  \<^verbatim>\<open>autocommit=True\<close>, so a statement that fails leaves no aborted transaction behind
  and the answer to a statement depends on that statement alone. The trace records every
  connection and statement, in the order the service issues them.
\<close>

datatype sqlval = SNull | SInt int | SNum rat | SText string

record stats =
  stat_n :: sqlval
  stat_min :: sqlval
  stat_max :: sqlval
  stat_mean :: sqlval
  stat_stddev :: sqlval
  stat_q1 :: sqlval
  stat_median :: sqlval
  stat_q3 :: sqlval

datatype statement =
    ListTables
  | GetColumns string string
  | NullCount string string string
  | UniqueCount string string string
  | NumericStats string string string
  | RowCounts string string "string list"
  | HistogramQ string string string int
  | PreviewQ string string int

datatype event = Connect string | Execute statement

type_synonym trace = "event list"

record world =
  DATABASE_URL :: "string option"
  pg_connect :: "string \<Rightarrow> exn option"
  pg_list_tables :: "exn + (string \<times> string) list"
  pg_columns :: "string \<Rightarrow> string \<Rightarrow> exn + (string \<times> string option) list"
  pg_null_count :: "string \<Rightarrow> string \<Rightarrow> string \<Rightarrow> exn + int"
  pg_unique_count :: "string \<Rightarrow> string \<Rightarrow> string \<Rightarrow> exn + int"
  pg_numeric_stats :: "string \<Rightarrow> string \<Rightarrow> string \<Rightarrow> exn + stats"
  pg_row_counts :: "string \<Rightarrow> string \<Rightarrow> string list \<Rightarrow> exn + int \<times> int"
  pg_histogram ::
    "string \<Rightarrow> string \<Rightarrow> string \<Rightarrow> int \<Rightarrow> exn + (int \<times> int \<times> rat option \<times> rat option) list"
  pg_preview :: "string \<Rightarrow> string \<Rightarrow> int \<Rightarrow> exn + string list \<times> sqlval list list"
  py_int :: "string \<Rightarrow> exn + int"
  utcnow :: string

text \<open>
  \<open>py_int\<close> is Python's \<^verbatim>\<open>int(str)\<close> and \<open>utcnow\<close> is
  \<^verbatim>\<open>datetime.utcnow().isoformat()\<close>: library calls, taken as given.

  \<^verbatim>\<open>
  def _connect():
      dsn = os.environ.get("DATABASE_URL")
      if not dsn:
          raise RuntimeError("DATABASE_URL env var is not set")
      return psycopg.connect(dsn, autocommit=True)
  \<close>
\<close>

definition connect :: "world \<Rightarrow> trace \<Rightarrow> (exn + unit) \<times> trace" where
  "connect w tr =
     (case DATABASE_URL w of
        None \<Rightarrow> (Inl (RuntimeError ''DATABASE_URL env var is not set''), tr)
      | Some dsn \<Rightarrow>
          if dsn = [] then (Inl (RuntimeError ''DATABASE_URL env var is not set''), tr)
          else (case pg_connect w dsn of
                  Some e \<Rightarrow> (Inl e, tr @ [Connect dsn])
                | None \<Rightarrow> (Inr (), tr @ [Connect dsn])))"

text \<open>\<^verbatim>\<open>cur.execute(sql)\<close> followed by the fetch: the answer, and the statement traced.\<close>

definition execute :: "statement \<Rightarrow> exn + 'a \<Rightarrow> trace \<Rightarrow> (exn + 'a) \<times> trace" where
  "execute q answer tr = (answer, tr @ [Execute q])"

definition list_tables :: "world \<Rightarrow> trace \<Rightarrow> (exn + (string \<times> string) list) \<times> trace" where
  "list_tables w tr = execute ListTables (pg_list_tables w) tr"

record column =
  name :: string
  data_type :: "string option"

text \<open>
  \<^verbatim>\<open>return [{"name": r[0], "data_type": r[1]} for r in cur.fetchall()]\<close>
\<close>

definition get_columns ::
  "world \<Rightarrow> string \<Rightarrow> string \<Rightarrow> trace \<Rightarrow> (exn + column list) \<times> trace" where
  "get_columns w schema tab tr =
     execute (GetColumns schema tab)
       (case pg_columns w schema tab of
          Inl e \<Rightarrow> Inl e
        | Inr rows \<Rightarrow> Inr (map (\<lambda>r. \<lparr>name = fst r, data_type = snd r\<rparr>) rows)) tr"

definition column_null_count ::
  "world \<Rightarrow> string \<Rightarrow> string \<Rightarrow> string \<Rightarrow> trace \<Rightarrow> (exn + int) \<times> trace" where
  "column_null_count w schema tab col tr =
     execute (NullCount schema tab col) (pg_null_count w schema tab col) tr"

definition column_unique_count ::
  "world \<Rightarrow> string \<Rightarrow> string \<Rightarrow> string \<Rightarrow> trace \<Rightarrow> (exn + int) \<times> trace" where
  "column_unique_count w schema tab col tr =
     execute (UniqueCount schema tab col) (pg_unique_count w schema tab col) tr"

definition numeric_stats ::
  "world \<Rightarrow> string \<Rightarrow> string \<Rightarrow> string \<Rightarrow> trace \<Rightarrow> (exn + stats) \<times> trace" where
  "numeric_stats w schema tab col tr =
     execute (NumericStats schema tab col) (pg_numeric_stats w schema tab col) tr"

section \<open>Python floats\<close>

text \<open>
  A Python float is an IEEE 754 binary64 number: a finite value, which is a rational
  number, an infinity, or NaN (the two zeros are one value here). A conversion to float
  and a float operation return the float nearest to the exact result, a tie going to the
  even significand; \<open>binary64\<close> is that rounding. For a rational \<open>x\<close> whose exponent is
  \<open>e\<close>, the integer with \<^verbatim>\<open>2^e <= |x| < 2^(e+1)\<close> (\<open>ilog2\<close> finds it from the bit lengths
  of numerator and denominator), the floats around \<open>x\<close> are the multiples of
  \<^verbatim>\<open>2^(e-52)\<close>, and the multiples of \<^verbatim>\<open>2^(-1074)\<close> in the subnormal range; a rounded
  value of exponent 1024 or more is an infinity.
\<close>

datatype pyfloat = Finite rat | PosInf | NegInf | NaN

definition round_half_even :: "rat \<Rightarrow> int" where
  "round_half_even q =
     (let f = \<lfloor>q\<rfloor>; r = q - of_int f in
      if r < 1 / 2 then f else if 1 / 2 < r then f + 1 else if even f then f else f + 1)"

definition ilog2 :: "rat \<Rightarrow> int" where
  "ilog2 x =
     (let e = bitlen (fst (quotient_of x)) - bitlen (snd (quotient_of x)) in
      if 2 powi e \<le> x then e else e - 1)"

definition binary64 :: "rat \<Rightarrow> pyfloat" where
  "binary64 x =
     (if x = 0 then Finite 0
      else
        let k = max (ilog2 \<bar>x\<bar> - 52) (- 1074);
            y = of_int (round_half_even (\<bar>x\<bar> / 2 powi k)) * 2 powi k in
        if 1024 \<le> ilog2 y then (if 0 < x then PosInf else NegInf)
        else Finite (if 0 < x then y else - y))"

text \<open>
  \<^verbatim>\<open>float(x)\<close> of a number the database returned: an \<^verbatim>\<open>int\<close>, a \<^verbatim>\<open>Decimal\<close> or a
  \<^verbatim>\<open>float\<close>, each a rational here. (\<^verbatim>\<open>float\<close> of an \<^verbatim>\<open>int\<close> raises OverflowError where
  the rounding gives an infinity; an \<^verbatim>\<open>int\<close> of the database is a bigint at most, below
  \<^verbatim>\<open>2^63\<close>, where the two agree.)
\<close>

definition py_float :: "rat \<Rightarrow> pyfloat" where
  "py_float x = binary64 x"

text \<open>
  The quotient of two floats by IEEE 754, and Python's \<^verbatim>\<open>a / b\<close> on floats, which raises
  on a zero divisor before it divides. (On a zero divisor, where the IEEE quotient
  depends on the sign of the zero, \<open>ieee_div\<close> is NaN; Python never gets there. In HOL
  \<open>x / 0 = 0\<close>, which would hide the guard of the source.)
\<close>

fun ieee_div :: "pyfloat \<Rightarrow> pyfloat \<Rightarrow> pyfloat" where
  "ieee_div (Finite x) (Finite y) = (if y = 0 then NaN else binary64 (x / y))"
| "ieee_div (Finite x) PosInf = Finite 0"
| "ieee_div (Finite x) NegInf = Finite 0"
| "ieee_div PosInf (Finite y) = (if 0 < y then PosInf else NegInf)"
| "ieee_div NegInf (Finite y) = (if 0 < y then NegInf else PosInf)"
| "ieee_div a b = NaN"

definition py_truediv :: "pyfloat \<Rightarrow> pyfloat \<Rightarrow> exn + pyfloat" where
  "py_truediv a b =
     (if b = Finite 0 then Inl (ZeroDivisionError ''float division by zero'')
      else Inr (ieee_div a b))"

section \<open>Row profiler\<close>

record row_stats =
  total_rows :: int
  duplicate_rows :: int
  duplicate_pct :: pyfloat

text \<open>
  \<^verbatim>\<open>
  def _table_row_counts_and_dupes(cur, schema, table, columns):
      col_list = ", ".join([f'\"{c["name"]}\"' for c in columns])
      sql = f"""SELECT COUNT(*)::bigint AS total_rows,
                  COUNT(*)::bigint - COUNT(DISTINCT ({col_list}))::bigint AS duplicate_rows
                FROM \"{schema}\".\"{table}\" """
      cur.execute(sql)
      total, dupes = cur.fetchone()
      pct = float(dupes) / float(total) if total else 0.0
      return dict(total_rows=int(total), duplicate_rows=int(dupes), duplicate_pct=pct)
  \<close>
\<close>

definition table_row_counts_and_dupes ::
  "world \<Rightarrow> string \<Rightarrow> string \<Rightarrow> column list \<Rightarrow> trace \<Rightarrow> (exn + row_stats) \<times> trace" where
  "table_row_counts_and_dupes w schema tab cols tr =
     (let col_list = map name cols in
      case execute (RowCounts schema tab col_list) (pg_row_counts w schema tab col_list) tr of
        (Inl e, tr') \<Rightarrow> (Inl e, tr')
      | (Inr (tot, dupes), tr') \<Rightarrow>
          (case (if tot \<noteq> 0 then py_truediv (py_float (of_int dupes)) (py_float (of_int tot))
                 else Inr (Finite 0)) of
             Inl e \<Rightarrow> (Inl e, tr')
           | Inr pct \<Rightarrow>
               (Inr \<lparr>total_rows = tot, duplicate_rows = dupes, duplicate_pct = pct\<rparr>, tr')))"

text \<open>
  What PostgreSQL computes for that statement on a table whose rows are \<open>rows\<close>, each
  row holding the values of the listed columns in order. \<^verbatim>\<open>COUNT(*)\<close> is the number
  of rows. With two or more columns \<^verbatim>\<open>(c1, ..., ck)\<close> is a row value, never null as a
  whole, and DISTINCT compares rows field by field with nulls equal; with one column
  \<^verbatim>\<open>(c1)\<close> is the column itself and \<^verbatim>\<open>COUNT(DISTINCT c1)\<close> skips its nulls.
\<close>

definition sql_count_distinct :: "sqlval list list \<Rightarrow> nat \<Rightarrow> nat" where
  "sql_count_distinct rows ncols =
     (if ncols = 1 then length (remdups (filter (\<lambda>r. r \<noteq> [SNull]) rows))
      else length (remdups rows))"

definition sql_row_counts :: "sqlval list list \<Rightarrow> nat \<Rightarrow> int \<times> int" where
  "sql_row_counts rows ncols =
     (int (length rows), int (length rows) - int (sql_count_distinct rows ncols))"

section \<open>Histogram builder\<close>

record hbucket =
  bucket :: int
  count :: int
  min_v :: "pyfloat option"
  max_v :: "pyfloat option"

text \<open>
  \<^verbatim>\<open>
  def _histogram(cur, schema, table, col, buckets=20):
      sql = f"""
          WITH stats AS (
              SELECT MIN(\"{col}\") AS mn, MAX(\"{col}\") AS mx
              FROM \"{schema}\".\"{table}\" WHERE \"{col}\" IS NOT NULL
          ), hist AS (
              SELECT width_bucket(\"{col}\", stats.mn, stats.mx, %s) AS bkt,
                     COUNT(*)::bigint AS ct, stats.mn, stats.mx
              FROM \"{schema}\".\"{table}\", stats
              WHERE \"{col}\" IS NOT NULL
              GROUP BY bkt, stats.mn, stats.mx
              ORDER BY bkt
          )
          SELECT bkt, ct, mn, mx FROM hist
      """
      cur.execute(sql, (buckets,))
      data = [{"bucket": int(r[0]), "count": int(r[1]),
               "min": float(r[2]) if r[2] is not None else None,
               "max": float(r[3]) if r[3] is not None else None} for r in cur.fetchall()]
      return data
  \<close>
\<close>

definition histogram ::
  "world \<Rightarrow> string \<Rightarrow> string \<Rightarrow> string \<Rightarrow> int \<Rightarrow> trace \<Rightarrow> (exn + hbucket list) \<times> trace" where
  "histogram w schema tab col buckets tr =
     execute (HistogramQ schema tab col buckets)
       (case pg_histogram w schema tab col buckets of
          Inl e \<Rightarrow> Inl e
        | Inr rows \<Rightarrow>
            Inr (map (\<lambda>(bkt, ct, mn, mx).
                   \<lparr>bucket = bkt, count = ct,
                    min_v = map_option py_float mn, max_v = map_option py_float mx\<rparr>) rows)) tr"

text \<open>
  PostgreSQL's \<^verbatim>\<open>width_bucket(operand, low, high, count)\<close>: an error when the count is
  not positive or the bounds are equal; otherwise bucket 0 below the range, \<open>count + 1\<close>
  from the far bound on, and inside the range the 1-based index of the equal-width
  bucket that holds the operand.
\<close>

definition width_bucket :: "rat \<Rightarrow> rat \<Rightarrow> rat \<Rightarrow> int \<Rightarrow> exn + int" where
  "width_bucket x lo hi cnt =
     (if cnt \<le> 0 then Inl (DatabaseError ''count must be greater than zero'')
      else if lo = hi then Inl (DatabaseError ''lower bound cannot equal upper bound'')
      else if lo < hi then
        Inr (if x < lo then 0 else if hi \<le> x then cnt + 1
             else \<lfloor>(x - lo) * of_int cnt / (hi - lo)\<rfloor> + 1)
      else
        Inr (if lo < x then 0 else if x \<le> hi then cnt + 1
             else \<lfloor>(lo - x) * of_int cnt / (lo - hi)\<rfloor> + 1))"

text \<open>The rows of a select list, in order, stopping at the first error.\<close>

fun collect :: "(exn + 'a) list \<Rightarrow> exn + 'a list" where
  "collect [] = Inr []"
| "collect (Inl e # rs) = Inl e"
| "collect (Inr x # rs) = (case collect rs of Inl e \<Rightarrow> Inl e | Inr xs \<Rightarrow> Inr (x # xs))"

text \<open>
  What PostgreSQL computes for the histogram statement on the column \<open>col\<close> whose
  values, row by row, are \<open>vals\<close> (\<open>None\<close> is NULL); \<open>non_null vals\<close> are the values
  that pass \<^verbatim>\<open>WHERE col IS NOT NULL\<close>. \<open>stats\<close> is one row: the minimum and maximum of
  the non-null values. \<open>hist\<close> joins every non-null value with that row and computes
  its bucket; a joined row is the pair of the value and its bucket. With no non-null
  value the join is empty and so is the answer.

  \<^verbatim>\<open>GROUP BY bkt\<close> names the output column \<^verbatim>\<open>bkt\<close>, the bucket, unless the table has an
  input column of that name, which SQL prefers: for the column \<^verbatim>\<open>bkt\<close> itself the rows
  are grouped by the value. \<open>mn\<close> and \<open>mx\<close> are constant, so they split no group. Each
  group gives one row: the bucket of its rows (a group is never empty, and its rows
  share their bucket, so it is read off the first), their number, \<open>mn\<close> and \<open>mx\<close>.
  \<^verbatim>\<open>ORDER BY bkt\<close> sorts the rows by bucket, and the outer query keeps that order.
  (When another column of the table is named \<^verbatim>\<open>bkt\<close> the statement is rejected; that
  case answers \<open>Inl\<close> and is not described here.)
\<close>

definition non_null :: "'a option list \<Rightarrow> 'a list" where
  "non_null vals = concat (map (\<lambda>v. case v of None \<Rightarrow> [] | Some x \<Rightarrow> [x]) vals)"

definition group_key :: "string \<Rightarrow> rat \<times> int \<Rightarrow> rat" where
  "group_key col r = (if col = ''bkt'' then fst r else of_int (snd r))"

definition sql_histogram ::
  "string \<Rightarrow> rat option list \<Rightarrow> int \<Rightarrow> exn + (int \<times> int \<times> rat option \<times> rat option) list" where
  "sql_histogram col vals buckets =
     (let xs = non_null vals in
      if xs = [] then Inr []
      else
        let mn = Min (set xs); mx = Max (set xs) in
        case collect (map (\<lambda>x. width_bucket x mn mx buckets) xs) of
          Inl e \<Rightarrow> Inl e
        | Inr bkts \<Rightarrow>
            let joined = zip xs bkts;
                groups = map (\<lambda>k. filter (\<lambda>r. group_key col r = k) joined)
                           (remdups (map (group_key col) joined))
            in Inr (sort_key fst
                      (map (\<lambda>g. (snd (hd g), int (length g), Some mn, Some mx)) groups)))"

section \<open>Report assembler and request handler\<close>

text \<open>
  \<^verbatim>\<open>str.lower()\<close> on ASCII: \<^verbatim>\<open>A\<close>..\<^verbatim>\<open>Z\<close> go to \<^verbatim>\<open>a\<close>..\<^verbatim>\<open>z\<close>, every other byte stays.
  The data types of \<^verbatim>\<open>information_schema.columns\<close> are ASCII; outside ASCII Python
  lower-cases only U+0130 and U+212A to a run holding an ASCII letter (\<^verbatim>\<open>i\<close> followed
  by U+0307, and \<^verbatim>\<open>k\<close>), and no trigger word below has a \<^verbatim>\<open>k\<close> or ends in \<^verbatim>\<open>i\<close>.
\<close>

definition lower_char :: "char \<Rightarrow> char" where
  "lower_char c = (if is_upper c then char_of (of_char c + (32 :: nat)) else c)"

definition lower :: "string \<Rightarrow> string" where
  "lower s = map lower_char s"

definition numeric_triggers :: "string list" where
  "numeric_triggers =
     [''integer'', ''numeric'', ''double'', ''real'', ''bigint'', ''smallint'', ''decimal'']"

text \<open>
  \<^verbatim>\<open>any(x in (dtype or "").lower() for x in ["integer", ..., "decimal"])\<close>;
  \<open>sublist x s\<close> is Python's \<^verbatim>\<open>x in s\<close> on strings.
\<close>

definition is_numeric_dtype :: "string option \<Rightarrow> bool" where
  "is_numeric_dtype dtype =
     list_ex (\<lambda>x. sublist x (lower (case dtype of None \<Rightarrow> [] | Some d \<Rightarrow> d))) numeric_triggers"




text \<open>
  One entry of \<^verbatim>\<open>col_metrics\<close>: the keys \<^verbatim>\<open>name\<close>, \<^verbatim>\<open>data_type\<close>, \<^verbatim>\<open>nulls\<close>,
  \<^verbatim>\<open>unique\<close>, and the optional keys \<^verbatim>\<open>numeric_stats\<close> (here \<open>numeric_stats_field\<close>, the
  plain name being the function's) and \<^verbatim>\<open>numeric_stats_error\<close>; \<open>None\<close> is a key that is
  absent.
\<close>

record entry = column +
  nulls :: int
  unique :: int
  numeric_stats_field :: "stats option"
  numeric_stats_error :: "string option"

text \<open>
  The body of the loop over the columns in \<^verbatim>\<open>do_GET\<close>:
  \<^verbatim>\<open>
  name = c["name"]; dtype = c["data_type"]
  nulls = _column_null_count(cur, sch, tab, name)
  uniq = _column_unique_count(cur, sch, tab, name)
  entry = {"name": name, "data_type": dtype, "nulls": int(nulls), "unique": int(uniq)}
  if any(x in (dtype or "").lower() for x in [...]):
      try:
          entry["numeric_stats"] = _numeric_stats(cur, sch, tab, name)
      except Exception as e:
          entry["numeric_stats_error"] = str(e)
  col_metrics.append(entry)
  \<close>
\<close>

definition column_entry ::
  "world \<Rightarrow> string \<Rightarrow> string \<Rightarrow> column \<Rightarrow> trace \<Rightarrow> (exn + entry) \<times> trace" where
  "column_entry w sch tab c tr =
     (let nm = name c; dtype = data_type c in
      case column_null_count w sch tab nm tr of
        (Inl e, tr1) \<Rightarrow> (Inl e, tr1)
      | (Inr nl, tr1) \<Rightarrow>
          (case column_unique_count w sch tab nm tr1 of
             (Inl e, tr2) \<Rightarrow> (Inl e, tr2)
           | (Inr uniq, tr2) \<Rightarrow>
               (let en = \<lparr>name = nm, data_type = dtype, nulls = nl, unique = uniq,
                          numeric_stats_field = None, numeric_stats_error = None\<rparr> in
                if is_numeric_dtype dtype then
                  (case numeric_stats w sch tab nm tr2 of
                     (Inr st, tr3) \<Rightarrow> (Inr (en\<lparr>numeric_stats_field := Some st\<rparr>), tr3)
                   | (Inl e, tr3) \<Rightarrow> (Inr (en\<lparr>numeric_stats_error := Some (exn_str e)\<rparr>), tr3))
                else (Inr en, tr2))))"

text \<open>\<^verbatim>\<open>col_metrics = []; for c in cols: ...; col_metrics.append(entry)\<close>\<close>

fun column_loop ::
  "world \<Rightarrow> string \<Rightarrow> string \<Rightarrow> column list \<Rightarrow> entry list \<Rightarrow> trace \<Rightarrow> (exn + entry list) \<times> trace"
where
  "column_loop w sch tab [] col_metrics tr = (Inr col_metrics, tr)"
| "column_loop w sch tab (c # cs) col_metrics tr =
     (case column_entry w sch tab c tr of
        (Inl e, tr') \<Rightarrow> (Inl e, tr')
      | (Inr en, tr') \<Rightarrow> column_loop w sch tab cs (col_metrics @ [en]) tr')"

text \<open>
  The entry the specification prescribes for a column whose null count and distinct
  count are \<open>nl\<close> and \<open>uq\<close> of its name: both counts, and for a numeric column the
  statistics when their statement succeeds, the error as a string when it fails, never
  both. It is the reference the loop is compared with.
\<close>

definition expected_entry ::
  "world \<Rightarrow> string \<Rightarrow> string \<Rightarrow> (string \<Rightarrow> int) \<Rightarrow> (string \<Rightarrow> int) \<Rightarrow> column \<Rightarrow> entry" where
  "expected_entry w sch tab nl uq c =
     \<lparr>name = name c, data_type = data_type c, nulls = nl (name c), unique = uq (name c),
      numeric_stats_field =
        (if is_numeric_dtype (data_type c)
         then (case pg_numeric_stats w sch tab (name c) of Inl e \<Rightarrow> None | Inr st \<Rightarrow> Some st)
         else None),
      numeric_stats_error =
        (if is_numeric_dtype (data_type c)
         then (case pg_numeric_stats w sch tab (name c) of
                 Inl e \<Rightarrow> Some (exn_str e) | Inr st \<Rightarrow> None)
         else None)\<rparr>"

record report =
  table :: string
  row_stats :: row_stats
  columns :: "entry list"

text \<open>The JSON object a response carries, and the response: status and body.\<close>

datatype payload =
    J_error string
  | J_health string
  | J_tables "(string \<times> string) list"
  | J_summary report
  | J_histogram string string int "hbucket list"
  | J_preview "string list" "sqlval list list"

record response =
  status :: nat
  body :: payload

text \<open>
  The request is what \<^verbatim>\<open>urlparse\<close> and \<^verbatim>\<open>parse_qs\<close> make of \<^verbatim>\<open>self.path\<close>: the path and
  the dictionary from a key to the list of its values.
  \<open>query_param qs key dflt\<close> is \<^verbatim>\<open>(qs.get(key) or [dflt])[0]\<close>.
\<close>

definition query_param :: "(string \<Rightarrow> string list option) \<Rightarrow> string \<Rightarrow> string \<Rightarrow> string" where
  "query_param qs key dflt =
     (case qs key of None \<Rightarrow> dflt | Some [] \<Rightarrow> dflt | Some (v # vs) \<Rightarrow> v)"

text \<open>
  The same four lines of the summary, histogram and preview branches:
  \<^verbatim>\<open>
  if "." in tbl:
      sch, tab = tbl.split(".", 1)
  else:
      sch, tab = "public", tbl or ""
  \<close>
\<close>

definition split_table :: "string \<Rightarrow> string \<times> string" where
  "split_table tbl =
     (if CHR ''.'' \<in> set tbl
      then (takeWhile (\<lambda>c. c \<noteq> CHR ''.'') tbl, tl (dropWhile (\<lambda>c. c \<noteq> CHR ''.'') tbl))
      else (''public'', tbl))"

definition api_tables :: "world \<Rightarrow> trace \<Rightarrow> (exn + response) \<times> trace" where
  "api_tables w tr =
     (case connect w tr of
        (Inl e, tr1) \<Rightarrow> (Inl e, tr1)
      | (Inr u, tr1) \<Rightarrow>
          (case list_tables w tr1 of
             (Inl e, tr2) \<Rightarrow> (Inl e, tr2)
           | (Inr tables, tr2) \<Rightarrow> (Inr \<lparr>status = 200, body = J_tables tables\<rparr>, tr2)))"

definition api_summary ::
  "world \<Rightarrow> (string \<Rightarrow> string list option) \<Rightarrow> trace \<Rightarrow> (exn + response) \<times> trace" where
  "api_summary w qs tr =
     (let tbl = query_param qs ''table'' [] in
      case sanitize_ident (fst (split_table tbl)) of
        Inl e \<Rightarrow> (Inl e, tr)
      | Inr sch \<Rightarrow>
      (case sanitize_ident (snd (split_table tbl)) of
        Inl e \<Rightarrow> (Inl e, tr)
      | Inr tab \<Rightarrow>
      (case connect w tr of
        (Inl e, tr1) \<Rightarrow> (Inl e, tr1)
      | (Inr u, tr1) \<Rightarrow>
      (case get_columns w sch tab tr1 of
        (Inl e, tr2) \<Rightarrow> (Inl e, tr2)
      | (Inr cols, tr2) \<Rightarrow>
          if cols = [] then
            (Inr \<lparr>status = 404,
                  body = J_error (''Tabla '' @ sch @ ''.'' @ tab @ '' no encontrada'')\<rparr>, tr2)
          else
            (case table_row_counts_and_dupes w sch tab cols tr2 of
               (Inl e, tr3) \<Rightarrow> (Inl e, tr3)
             | (Inr counts, tr3) \<Rightarrow>
                 (case column_loop w sch tab cols [] tr3 of
                    (Inl e, tr4) \<Rightarrow> (Inl e, tr4)
                  | (Inr col_metrics, tr4) \<Rightarrow>
                      (Inr \<lparr>status = 200,
                            body = J_summary \<lparr>table = sch @ ''.'' @ tab, row_stats = counts,
                                              columns = col_metrics\<rparr>\<rparr>, tr4)))))))"

definition api_histogram ::
  "world \<Rightarrow> (string \<Rightarrow> string list option) \<Rightarrow> trace \<Rightarrow> (exn + response) \<times> trace" where
  "api_histogram w qs tr =
     (let tbl = query_param qs ''table'' []; col0 = query_param qs ''column'' [] in
      case py_int w (query_param qs ''buckets'' ''20'') of
        Inl e \<Rightarrow> (Inl e, tr)
      | Inr buckets \<Rightarrow>
      (case sanitize_ident (fst (split_table tbl)) of
        Inl e \<Rightarrow> (Inl e, tr)
      | Inr sch \<Rightarrow>
      (case sanitize_ident (snd (split_table tbl)) of
        Inl e \<Rightarrow> (Inl e, tr)
      | Inr tab \<Rightarrow>
      (case sanitize_ident col0 of
        Inl e \<Rightarrow> (Inl e, tr)
      | Inr col \<Rightarrow>
      (case connect w tr of
        (Inl e, tr1) \<Rightarrow> (Inl e, tr1)
      | (Inr u, tr1) \<Rightarrow>
      (case histogram w sch tab col buckets tr1 of
        (Inl e, tr2) \<Rightarrow> (Inl e, tr2)
      | (Inr data, tr2) \<Rightarrow>
          (Inr \<lparr>status = 200, body = J_histogram (sch @ ''.'' @ tab) col buckets data\<rparr>,
           tr2)))))))"

definition api_preview ::
  "world \<Rightarrow> (string \<Rightarrow> string list option) \<Rightarrow> trace \<Rightarrow> (exn + response) \<times> trace" where
  "api_preview w qs tr =
     (let tbl = query_param qs ''table'' [] in
      case py_int w (query_param qs ''limit'' ''10'') of
        Inl e \<Rightarrow> (Inl e, tr)
      | Inr limit \<Rightarrow>
      (case sanitize_ident (fst (split_table tbl)) of
        Inl e \<Rightarrow> (Inl e, tr)
      | Inr sch \<Rightarrow>
      (case sanitize_ident (snd (split_table tbl)) of
        Inl e \<Rightarrow> (Inl e, tr)
      | Inr tab \<Rightarrow>
      (case connect w tr of
        (Inl e, tr1) \<Rightarrow> (Inl e, tr1)
      | (Inr u, tr1) \<Rightarrow>
      (case execute (PreviewQ sch tab limit) (pg_preview w sch tab limit) tr1 of
        (Inl e, tr2) \<Rightarrow> (Inl e, tr2)
      | (Inr (colnames, rows), tr2) \<Rightarrow>
          (Inr \<lparr>status = 200, body = J_preview colnames rows\<rparr>, tr2))))))"

text \<open>
  \<^verbatim>\<open>do_GET\<close>: the branches are tried in the order of the source, each by
  \<^verbatim>\<open>path.startswith\<close>; the \<^verbatim>\<open>except Exception\<close> of the whole body answers 500 with
  \<^verbatim>\<open>str(e)\<close>. The encoding of the body as JSON and the writing of the response are
  not modelled.
\<close>

definition do_GET ::
  "world \<Rightarrow> string \<Rightarrow> (string \<Rightarrow> string list option) \<Rightarrow> trace \<Rightarrow> response \<times> trace" where
  "do_GET w parsed_path qs tr =
     (let path = (if parsed_path = [] then ''/'' else parsed_path) in
      case (if prefix ''/api/health'' path then
              (Inr \<lparr>status = 200, body = J_health (utcnow w)\<rparr>, tr)
            else if prefix ''/api/tables'' path then api_tables w tr
            else if prefix ''/api/summary'' path then api_summary w qs tr
            else if prefix ''/api/histogram'' path then api_histogram w qs tr
            else if prefix ''/api/preview'' path then api_preview w qs tr
            else (Inr \<lparr>status = 404, body = J_error ''Not found''\<rparr>, tr)) of
        (Inl e, tr') \<Rightarrow> (\<lparr>status = 500, body = J_error (exn_str e)\<rparr>, tr')
      | (Inr resp, tr') \<Rightarrow> (resp, tr'))"

section \<open>An example database\<close>

text \<open>
  The table \<^verbatim>\<open>public.t(id integer, amount numeric, name text)\<close> with the rows
  \<^verbatim>\<open>(1, 2.5, 'a')\<close>, \<^verbatim>\<open>(2, 2.5, 'a')\<close>, \<^verbatim>\<open>(NULL, NULL, 'b')\<close>, \<^verbatim>\<open>(2, 2.5, 'a')\<close>; the
  statistics statement succeeds on \<^verbatim>\<open>id\<close> and is cancelled on \<^verbatim>\<open>amount\<close>.
\<close>

definition demo_rows :: "sqlval list list" where
  "demo_rows =
     [[SInt 1, SNum (5 / 2), SText ''a''],
      [SInt 2, SNum (5 / 2), SText ''a''],
      [SNull, SNull, SText ''b''],
      [SInt 2, SNum (5 / 2), SText ''a'']]"

definition demo_columns :: "(string \<times> string option) list" where
  "demo_columns =
     [(''id'', Some ''integer''), (''amount'', Some ''numeric''), (''name'', Some ''text'')]"

definition demo_stats :: stats where
  "demo_stats =
     \<lparr>stat_n = SInt 3, stat_min = SInt 1, stat_max = SInt 2, stat_mean = SNum (5 / 3),
      stat_stddev = SNum (5774 / 10000), stat_q1 = SInt 1, stat_median = SInt 2,
      stat_q3 = SInt 2\<rparr>"

definition demo_int :: "string \<Rightarrow> exn + int" where
  "demo_int s =
     (if s \<noteq> [] \<and> list_all is_digit s
      then Inr (foldl (\<lambda>a c. 10 * a + (int (of_char c) - 48)) 0 s)
      else Inl (ValueError (''invalid literal for int() with base 10: '' @ s)))"

definition demo_world :: world where
  "demo_world =
     \<lparr>DATABASE_URL = Some ''postgresql://demo'',
      pg_connect = (\<lambda>dsn. None),
      pg_list_tables = Inr [(''public'', ''t'')],
      pg_columns = (\<lambda>sch tab. if sch = ''public'' \<and> tab = ''t'' then Inr demo_columns else Inr []),
      pg_null_count = (\<lambda>sch tab col. Inr (if col = ''name'' then 0 else 1)),
      pg_unique_count = (\<lambda>sch tab col. Inr (if col = ''amount'' then 1 else 2)),
      pg_numeric_stats =
        (\<lambda>sch tab col. if col = ''id'' then Inr demo_stats
           else Inl (DatabaseError ''canceling statement due to statement timeout'')),
      pg_row_counts = (\<lambda>sch tab cols. Inr (sql_row_counts demo_rows (length cols))),
      pg_histogram = (\<lambda>sch tab col buckets. sql_histogram col [Some 1, Some 2, None, Some 2] buckets),
      pg_preview = (\<lambda>sch tab limit. Inr (map fst demo_columns, take (nat limit) demo_rows)),
      py_int = demo_int,
      utcnow = ''2024-01-01T00:00:00''\<rparr>"

section \<open>Properties of the identifier validator\<close>

lemma ident_cont_not_newline: "\<not> ident_cont (CHR 0x0A)"
  by (simp add: ident_cont_def is_upper_def is_lower_def is_digit_def)

lemma re_cont_star_dollar_iff:
  "re_cont_star_dollar s \<longleftrightarrow>
     list_all ident_cont s \<or> (\<exists>t. s = t @ [CHR 0x0A] \<and> list_all ident_cont t)"
proof (induction s)
  case Nil
  show ?case by (simp add: re_dollar_def)
next
  case (Cons c s)
  show ?case
  proof (cases "ident_cont c")
    case True
    then have "c \<noteq> CHR 0x0A" using ident_cont_not_newline by auto
    with True Cons show ?thesis
      by (auto simp: re_dollar_def Cons_eq_append_conv)
  next
    case False
    then show ?thesis
      by (auto simp: re_dollar_def Cons_eq_append_conv)
  qed
qed

lemma IDENT_RE_match_iff:
  "IDENT_RE_match nm \<longleftrightarrow>
     ident_grammar nm \<or> (\<exists>t. nm = t @ [CHR 0x0A] \<and> ident_grammar t)"
proof (cases nm)
  case Nil
  then show ?thesis by (simp add: IDENT_RE_match_def ident_grammar_def)
next
  case (Cons c s)
  have nl: "\<not> ident_start (CHR 0x0A)"
    by (simp add: ident_start_def is_upper_def is_lower_def)
  show ?thesis
  proof
    assume "IDENT_RE_match nm"
    with Cons have st: "ident_start c" and rest: "re_cont_star_dollar s"
      by (simp_all add: IDENT_RE_match_def)
    from rest consider "list_all ident_cont s"
      | t where "s = t @ [CHR 0x0A]" "list_all ident_cont t"
      using re_cont_star_dollar_iff by blast
    then show "ident_grammar nm \<or> (\<exists>t. nm = t @ [CHR 0x0A] \<and> ident_grammar t)"
    proof cases
      case 1
      with st Cons show ?thesis by (simp add: ident_grammar_def)
    next
      case 2
      with st Cons have "nm = (c # t) @ [CHR 0x0A] \<and> ident_grammar (c # t)"
        by (simp add: ident_grammar_def)
      then show ?thesis by blast
    qed
  next
    assume "ident_grammar nm \<or> (\<exists>t. nm = t @ [CHR 0x0A] \<and> ident_grammar t)"
    then show "IDENT_RE_match nm"
    proof
      assume "ident_grammar nm"
      with Cons show ?thesis
        by (simp add: ident_grammar_def IDENT_RE_match_def re_cont_star_dollar_iff)
    next
      assume "\<exists>t. nm = t @ [CHR 0x0A] \<and> ident_grammar t"
      then obtain t where t: "nm = t @ [CHR 0x0A]" "ident_grammar t" by blast
      then obtain d u where du: "t = d # u" "ident_start d" "list_all ident_cont u"
        by (cases t) (auto simp: ident_grammar_def)
      with t Cons have "c = d" "s = u @ [CHR 0x0A]" by simp_all
      with du Cons show ?thesis
        by (auto simp: IDENT_RE_match_def re_cont_star_dollar_iff)
    qed
  qed
qed

text \<open>
  What the validator does on every string: it raises exactly when the name is neither
  an identifier of the grammar nor such an identifier followed by one newline.
\<close>

lemma sanitize_ident_raises_iff:
  "(\<exists>e. sanitize_ident nm = Inl e) \<longleftrightarrow>
     \<not> (ident_grammar nm \<or> (\<exists>t. nm = t @ [CHR 0x0A] \<and> ident_grammar t))"
  by (auto simp: sanitize_ident_def IDENT_RE_match_iff ident_grammar_def)

lemma sanitize_ident_grammar: "ident_grammar nm \<Longrightarrow> sanitize_ident nm = Inr nm"
  by (auto simp: sanitize_ident_def IDENT_RE_match_iff ident_grammar_def)

text \<open>
  The name \<^verbatim>\<open>"abc\n"\<close> ends in a newline, so it is outside the grammar
  \<^verbatim>\<open>[A-Za-z_][A-Za-z0-9_]*\<close>, yet the validator returns it instead of raising.
\<close>

lemma sanitize_ident_abc_newline:
  "sanitize_ident ''abc\<newline>'' = Inr ''abc\<newline>'' \<and> \<not> ident_grammar ''abc\<newline>''"
  by (simp add: sanitize_ident_def IDENT_RE_match_def re_dollar_def ident_grammar_def
      ident_start_def ident_cont_def is_upper_def is_lower_def is_digit_def)

text \<open>
  Claim C10: on every string that passes validation the validator is the identity; the
  name it returns is the caller's spelling, unchanged.
\<close>

theorem sanitize_ident_identity:
  "sanitize_ident nm = Inr r \<Longrightarrow> r = nm"
  by (simp add: sanitize_ident_def split: if_splits)

theorem sanitize_ident_identity_witness:
  "sanitize_ident ''Orders_2024'' = Inr ''Orders_2024'' \<and> ''Orders_2024'' = ''Orders_2024''"
proof -
  have h: "sanitize_ident ''Orders_2024'' = Inr ''Orders_2024''"
    by (simp add: sanitize_ident_def IDENT_RE_match_def re_dollar_def
        ident_start_def ident_cont_def is_upper_def is_lower_def is_digit_def)
  show ?thesis using h sanitize_ident_identity [OF h] by simp
qed

section \<open>Properties of the float rounding\<close>

text \<open>
  Rounding to nearest moves a number by half a unit at most, and \<open>ilog2\<close> is the exponent
  of a positive rational.
\<close>

lemma round_half_even_ge: "\<lfloor>q\<rfloor> \<le> round_half_even q"
  by (simp add: round_half_even_def Let_def)

lemma round_half_even_le: "round_half_even q \<le> \<lfloor>q\<rfloor> + 1"
  by (simp add: round_half_even_def Let_def)

lemma round_half_even_of_int: "round_half_even (of_int z) = z"
  by (simp add: round_half_even_def Let_def)

lemma round_half_even_error: "\<bar>of_int (round_half_even q) - q\<bar> \<le> 1 / 2"
proof -
  have "of_int \<lfloor>q\<rfloor> \<le> q" "q < of_int \<lfloor>q\<rfloor> + 1" by linarith+
  then show ?thesis by (auto simp: round_half_even_def Let_def abs_le_iff)
qed

lemma bitlen_ge_1: "0 < n \<Longrightarrow> 1 \<le> bitlen n"
  by (simp add: bitlen_alt_def)

lemma pow2_bitlen_le:
  assumes "0 < n"
  shows "(2 :: rat) powi (bitlen n - 1) \<le> of_int n"
proof -
  from bitlen_bounds [OF assms] have "2 ^ nat (bitlen n - 1) \<le> n" by simp
  then have "(of_int (2 ^ nat (bitlen n - 1)) :: rat) \<le> of_int n" by (simp only: of_int_le_iff)
  moreover have "(2 :: rat) powi (bitlen n - 1) = 2 ^ nat (bitlen n - 1)"
    using bitlen_ge_1 [OF assms] by (simp add: power_int_def)
  ultimately show ?thesis by simp
qed

lemma ilog2_of_int:
  assumes "0 < n"
  shows "ilog2 (of_int n) = bitlen n - 1"
proof -
  have "bitlen 1 = 1" by (simp add: bitlen_alt_def)
  with pow2_bitlen_le [OF assms] show ?thesis
    by (simp add: ilog2_def Let_def quotient_of_int)
qed

lemma ilog2_le_0:
  assumes "x \<le> 1"
  shows "ilog2 x \<le> 0"
proof -
  obtain p q where pq: "quotient_of x = (p, q)" by (cases "quotient_of x")
  then have q: "0 < q" by (rule quotient_of_denom_pos)
  from pq have x: "x = of_int p / of_int q" by (rule quotient_of_div)
  with assms q have "p \<le> q" by (simp add: pos_divide_le_eq)
  then have "bitlen p \<le> bitlen q" by (simp add: bitlen_def floorlog_mono)
  then show ?thesis by (simp add: ilog2_def Let_def pq)
qed

lemma ilog2_bounds:
  assumes "0 < x"
  shows "2 powi (ilog2 x) \<le> x \<and> x < 2 powi (ilog2 x + 1)"
proof -
  obtain p q where pq: "quotient_of x = (p, q)" by (cases "quotient_of x")
  then have q: "0 < q" by (rule quotient_of_denom_pos)
  from pq have x: "x = of_int p / of_int q" by (rule quotient_of_div)
  with assms q have p: "0 < p" by (simp add: zero_less_divide_iff)
  define e where "e = bitlen p - bitlen q"
  have bp: "(2 :: rat) powi (bitlen p - 1) \<le> of_int p" by (rule pow2_bitlen_le [OF p])
  have bq: "(2 :: rat) powi (bitlen q - 1) \<le> of_int q" by (rule pow2_bitlen_le [OF q])
  have up: "(of_int n :: rat) < 2 powi (bitlen n)" if "0 < n" for n
  proof -
    from bitlen_bounds [OF that] have "n < 2 ^ nat (bitlen n)" by simp
    then have "(of_int n :: rat) < of_int (2 ^ nat (bitlen n))" by (simp only: of_int_less_iff)
    moreover have "(2 :: rat) powi (bitlen n) = 2 ^ nat (bitlen n)"
      using bitlen_nonneg [of n] by (simp add: power_int_def)
    ultimately show ?thesis by simp
  qed
  have qpos: "(0 :: rat) < of_int q" using q by simp
  have ppos: "(0 :: rat) < of_int p" using p by simp
  have "x < 2 powi (bitlen p) / 2 powi (bitlen q - 1)"
    unfolding x using up [OF p] bq qpos ppos
    by (intro frac_less) simp_all
  also have "\<dots> = 2 powi (e + 1)"
    by (simp add: e_def power_int_diff [symmetric] algebra_simps)
  finally have hi: "x < 2 powi (e + 1)" .
  have "(2 :: rat) powi (bitlen p - 1) / 2 powi (bitlen q) < x"
    unfolding x using up [OF q] bp qpos ppos
    by (intro frac_less2) simp_all
  moreover have "(2 :: rat) powi (bitlen p - 1) / 2 powi (bitlen q) = 2 powi (e - 1)"
    by (simp add: e_def power_int_diff [symmetric] algebra_simps)
  ultimately have lo: "2 powi (e - 1) \<le> x" by simp
  show ?thesis
    using hi lo by (simp add: ilog2_def Let_def pq e_def [symmetric] not_le)
qed

text \<open>
  The float of an integer that is not zero is not zero; an integer of magnitude up to
  \<^verbatim>\<open>2^53\<close> is its own float; and a number between 0 and 1 rounds to a float between 0
  and 1.
\<close>

lemma binary64_of_int_nonzero:
  assumes "n \<noteq> 0"
  shows "binary64 (of_int n) \<noteq> Finite 0"
proof -
  define a where "a = \<bar>n\<bar>"
  define k where "k = max (bitlen a - 1 - 52) (- 1074)"
  define y :: rat where "y = of_int (round_half_even (of_int a / 2 powi k)) * 2 powi k"
  have a: "0 < a" using assms by (simp add: a_def)
  have abs: "\<bar>of_int n :: rat\<bar> = of_int a" by (simp add: a_def)
  have "k \<le> bitlen a - 1" using bitlen_ge_1 [OF a] by (simp add: k_def)
  then have "(2 :: rat) powi k \<le> 2 powi (bitlen a - 1)" by (intro power_int_increasing) simp_all
  with pow2_bitlen_le [OF a] have le: "(2 :: rat) powi k \<le> of_int a" by simp
  have pos: "(0 :: rat) < 2 powi k" by simp
  from le pos have "1 \<le> (of_int a :: rat) / 2 powi k" by (simp add: pos_le_divide_eq)
  then have "1 \<le> \<lfloor>(of_int a :: rat) / 2 powi k\<rfloor>" by (simp add: le_floor_iff)
  with round_half_even_ge [of "of_int a / 2 powi k"]
  have "1 \<le> round_half_even (of_int a / 2 powi k)" by linarith
  then have "(0 :: rat) < of_int (round_half_even (of_int a / 2 powi k))" by simp
  then have y: "0 < y" unfolding y_def using pos by (rule mult_pos_pos)
  have "binary64 (of_int n) =
          (if 1024 \<le> ilog2 y then (if 0 < n then PosInf else NegInf)
           else Finite (if 0 < n then y else - y))"
    using assms by (simp add: binary64_def abs ilog2_of_int [OF a] k_def y_def Let_def)
  with y show ?thesis by auto
qed

lemma binary64_of_int_exact:
  assumes "\<bar>n\<bar> \<le> 2 ^ 53"
  shows "binary64 (of_int n) = Finite (of_int n)"
proof (cases "n = 0")
  case True
  then show ?thesis by (simp add: binary64_def)
next
  case False
  define a where "a = \<bar>n\<bar>"
  define k where "k = max (bitlen a - 1 - 52) (- 1074)"
  define y :: rat where "y = of_int (round_half_even (of_int a / 2 powi k)) * 2 powi k"
  have a: "0 < a" using False by (simp add: a_def)
  have abs: "\<bar>of_int n :: rat\<bar> = of_int a" by (simp add: a_def)
  have b1: "1 \<le> bitlen a" by (rule bitlen_ge_1 [OF a])
  have k: "k = bitlen a - 53" using b1 by (simp add: k_def)
  have yy: "y = of_int a"
  proof (cases "bitlen a \<le> 53")
    case True
    define j where "j = nat (53 - bitlen a)"
    have kj: "k = - int j" using True by (simp add: k j_def)
    have "(of_int a :: rat) / 2 powi k = of_int (a * 2 ^ j)"
      by (simp add: kj power_int_minus field_simps)
    then have "round_half_even (of_int a / 2 powi k) = a * 2 ^ j"
      by (simp only: round_half_even_of_int)
    then show ?thesis by (simp add: y_def kj power_int_minus)
  next
    case F: False
    from bitlen_bounds [OF a] have "2 ^ nat (bitlen a - 1) \<le> a" by simp
    moreover from F have "53 \<le> nat (bitlen a - 1)" by simp
    then have "(2 :: int) ^ 53 \<le> 2 ^ nat (bitlen a - 1)" by (intro power_increasing) simp_all
    ultimately have "2 ^ 53 \<le> a" by simp
    with assms have a53: "a = 2 ^ 53" by (simp add: a_def)
    have "bitlen 1 = 1" by (simp add: bitlen_alt_def)
    with bitlen_pow2 [of 1 53] have "bitlen a = 54" unfolding a53 by simp
    then have "k = 1" by (simp add: k)
    then show ?thesis unfolding y_def a53 by (simp add: round_half_even_def Let_def)
  qed
  have "bitlen a \<le> 54"
  proof (rule ccontr)
    assume "\<not> bitlen a \<le> 54"
    then have "54 \<le> nat (bitlen a - 1)" by simp
    then have "(2 :: int) ^ 54 \<le> 2 ^ nat (bitlen a - 1)" by (intro power_increasing) simp_all
    with bitlen_bounds [OF a] have "2 ^ 54 \<le> a" by simp
    with assms show False by (simp add: a_def)
  qed
  then have nov: "\<not> 1024 \<le> ilog2 y" by (simp add: yy ilog2_of_int [OF a])
  have "binary64 (of_int n) =
          (if 1024 \<le> ilog2 y then (if 0 < n then PosInf else NegInf)
           else Finite (if 0 < n then y else - y))"
    using False by (simp add: binary64_def abs ilog2_of_int [OF a] k_def y_def Let_def)
  with nov yy show ?thesis by (simp add: a_def)
qed

lemma binary64_unit_interval:
  assumes "0 \<le> x" and "x \<le> 1"
  shows "\<exists>p. binary64 x = Finite p \<and> 0 \<le> p \<and> p \<le> 1"
proof (cases "x = 0")
  case True
  then show ?thesis by (simp add: binary64_def)
next
  case False
  with assms have x: "0 < x" by simp
  define k where "k = max (ilog2 x - 52) (- 1074)"
  define m where "m = round_half_even (x / 2 powi k)"
  define y :: rat where "y = of_int m * 2 powi k"
  define j where "j = nat (- k)"
  have "k \<le> 0" using ilog2_le_0 [OF assms(2)] by (simp add: k_def)
  then have kj: "k = - int j" by (simp add: j_def)
  have pos: "(0 :: rat) < 2 powi k" by simp
  have "0 \<le> x / 2 powi k" using x by simp
  then have "0 \<le> \<lfloor>x / 2 powi k\<rfloor>" by simp
  with round_half_even_ge [of "x / 2 powi k"] have m0: "0 \<le> m" unfolding m_def by linarith
  have "x / 2 powi k \<le> of_int (2 ^ j)"
    using assms(2) by (simp add: kj power_int_minus field_simps)
  then have "m \<le> 2 ^ j"
  proof (cases "x / 2 powi k = of_int (2 ^ j)")
    case True
    then show ?thesis unfolding m_def by (simp only: round_half_even_of_int)
  next
    case F: False
    assume "x / 2 powi k \<le> of_int (2 ^ j)"
    with F have "x / 2 powi k < of_int (2 ^ j)" by simp
    then have "\<lfloor>x / 2 powi k\<rfloor> < 2 ^ j" by (simp only: floor_less_iff)
    with round_half_even_le [of "x / 2 powi k"] show ?thesis by (simp add: m_def)
  qed
  then have "(of_int m :: rat) \<le> of_int (2 ^ j)" by (simp only: of_int_le_iff)
  then have "y \<le> of_int (2 ^ j) * 2 powi k"
    unfolding y_def using pos by (simp only: mult_le_cancel_right_pos)
  then have y1: "y \<le> 1" by (simp add: kj power_int_minus)
  have y0: "0 \<le> y" using m0 pos by (simp add: y_def)
  from ilog2_le_0 [OF y1] have nov: "\<not> 1024 \<le> ilog2 y" by simp
  have "binary64 x = Finite y"
    using x nov by (simp add: binary64_def k_def m_def y_def Let_def)
  with y0 y1 show ?thesis by simp
qed

text \<open>
  The float of \<open>x\<close>, when finite, is a multiple of the spacing at the exponent of \<open>x\<close>,
  and differs from \<open>x\<close> by half that spacing at most.
\<close>

lemma binary64_nearest:
  assumes "binary64 x = Finite y"
  shows "(\<exists>m. y = of_int m * 2 powi (max (ilog2 \<bar>x\<bar> - 52) (- 1074)))
         \<and> \<bar>y - x\<bar> \<le> 2 powi (max (ilog2 \<bar>x\<bar> - 52) (- 1074)) / 2"
proof (cases "x = 0")
  case True
  with assms have "y = 0" by (simp add: binary64_def)
  with True show ?thesis by (auto intro: exI [of _ 0])
next
  case False
  define k where "k = max (ilog2 \<bar>x\<bar> - 52) (- 1074)"
  define m where "m = round_half_even (\<bar>x\<bar> / 2 powi k)"
  have pos: "(0 :: rat) < 2 powi k" by simp
  from assms False have y: "y = (if 0 < x then of_int m * 2 powi k else - (of_int m * 2 powi k))"
    by (auto simp: binary64_def Let_def k_def m_def split: if_splits)
  have e: "\<bar>of_int m - \<bar>x\<bar> / 2 powi k\<bar> \<le> 1 / 2"
    unfolding m_def by (rule round_half_even_error)
  have "(of_int m - \<bar>x\<bar> / 2 powi k) * 2 powi k = of_int m * 2 powi k - \<bar>x\<bar>"
    using pos by (simp add: left_diff_distrib)
  then have "\<bar>of_int m * 2 powi k - \<bar>x\<bar>\<bar> = \<bar>(of_int m - \<bar>x\<bar> / 2 powi k) * 2 powi k\<bar>"
    by simp
  also have "\<dots> = \<bar>of_int m - \<bar>x\<bar> / 2 powi k\<bar> * 2 powi k"
    using pos by (simp add: abs_mult)
  also have "\<dots> \<le> 1 / 2 * 2 powi k"
    using e pos by (intro mult_right_mono) simp_all
  finally have b: "\<bar>of_int m * 2 powi k - \<bar>x\<bar>\<bar> \<le> 2 powi k / 2" by simp
  have grid: "\<exists>n. y = of_int n * 2 powi k"
  proof (cases "0 < x")
    case True
    with y show ?thesis by auto
  next
    case F: False
    with y have "y = of_int (- m) * 2 powi k" by simp
    then show ?thesis by blast
  qed
  have "\<bar>y - x\<bar> \<le> 2 powi k / 2"
  proof (cases "0 < x")
    case True
    with y b show ?thesis by simp
  next
    case F: False
    with False have "x < 0" by simp
    then have "\<bar>y - x\<bar> = \<bar>of_int m * 2 powi k - \<bar>x\<bar>\<bar>"
      using y by (simp add: abs_minus_commute)
    with b show ?thesis by simp
  qed
  with grid show ?thesis by (simp add: k_def)
qed

text \<open>Some floats: small integers are exact, \<^verbatim>\<open>1/3\<close>, \<^verbatim>\<open>0.1\<close> and \<^verbatim>\<open>0.3\<close> are not.\<close>

lemma binary64_1: "binary64 1 = Finite 1"
  by code_simp

lemma binary64_2: "binary64 2 = Finite 2"
  by code_simp

lemma binary64_3: "binary64 3 = Finite 3"
  by code_simp

lemma binary64_4: "binary64 4 = Finite 4"
  by code_simp

lemma binary64_quarter: "binary64 (1 / 4) = Finite (1 / 4)"
  by code_simp

lemma binary64_third: "binary64 (1 / 3) = Finite (6004799503160661 / 18014398509481984)"
  by code_simp

lemma binary64_tenth: "binary64 (1 / 10) = Finite (3602879701896397 / 36028797018963968)"
  by code_simp

lemma binary64_three_tenths: "binary64 (3 / 10) = Finite (5404319552844595 / 18014398509481984)"
  by code_simp

lemma binary64_above_2_53: "binary64 9007199254740993 = Finite 9007199254740992"
  by code_simp

section \<open>Properties of the request handler\<close>

text \<open>The branches of \<^verbatim>\<open>do_GET\<close> exclude one another: no path starts with two of the
  prefixes.\<close>

lemma summary_path:
  "prefix ''/api/summary'' p \<Longrightarrow> p \<noteq> [] \<and> \<not> prefix ''/api/health'' p \<and> \<not> prefix ''/api/tables'' p"
  by (auto simp: prefix_def)

lemma histogram_path:
  "prefix ''/api/histogram'' p \<Longrightarrow>
     p \<noteq> [] \<and> \<not> prefix ''/api/health'' p \<and> \<not> prefix ''/api/tables'' p \<and> \<not> prefix ''/api/summary'' p"
  by (auto simp: prefix_def)

lemma preview_path:
  "prefix ''/api/preview'' p \<Longrightarrow>
     p \<noteq> [] \<and> \<not> prefix ''/api/health'' p \<and> \<not> prefix ''/api/tables'' p \<and> \<not> prefix ''/api/summary'' p
     \<and> \<not> prefix ''/api/histogram'' p"
  by (auto simp: prefix_def)

lemma do_GET_summary:
  "prefix ''/api/summary'' p \<Longrightarrow>
     do_GET w p qs tr =
       (case api_summary w qs tr of
          (Inl e, tr') \<Rightarrow> (\<lparr>status = 500, body = J_error (exn_str e)\<rparr>, tr')
        | (Inr resp, tr') \<Rightarrow> (resp, tr'))"
  using summary_path [of p] by (simp add: do_GET_def)

lemma do_GET_histogram:
  "prefix ''/api/histogram'' p \<Longrightarrow>
     do_GET w p qs tr =
       (case api_histogram w qs tr of
          (Inl e, tr') \<Rightarrow> (\<lparr>status = 500, body = J_error (exn_str e)\<rparr>, tr')
        | (Inr resp, tr') \<Rightarrow> (resp, tr'))"
  using histogram_path [of p] by (simp add: do_GET_def)

lemma do_GET_preview:
  "prefix ''/api/preview'' p \<Longrightarrow>
     do_GET w p qs tr =
       (case api_preview w qs tr of
          (Inl e, tr') \<Rightarrow> (\<lparr>status = 500, body = J_error (exn_str e)\<rparr>, tr')
        | (Inr resp, tr') \<Rightarrow> (resp, tr'))"
  using preview_path [of p] by (simp add: do_GET_def)

text \<open>A name the validator rejects ends the branch before the connection: the trace is
  unchanged.\<close>

lemma api_summary_invalid:
  assumes "(\<exists>e. sanitize_ident (fst (split_table (query_param qs ''table'' []))) = Inl e) \<or>
           (\<exists>e. sanitize_ident (snd (split_table (query_param qs ''table'' []))) = Inl e)"
  shows "\<exists>e. api_summary w qs tr = (Inl e, tr)"
  using assms by (auto simp: api_summary_def Let_def split: sum.splits)

lemma api_histogram_invalid:
  assumes "(\<exists>e. sanitize_ident (fst (split_table (query_param qs ''table'' []))) = Inl e) \<or>
           (\<exists>e. sanitize_ident (snd (split_table (query_param qs ''table'' []))) = Inl e) \<or>
           (\<exists>e. sanitize_ident (query_param qs ''column'' []) = Inl e)"
  shows "\<exists>e. api_histogram w qs tr = (Inl e, tr)"
  using assms by (auto simp: api_histogram_def Let_def split: sum.splits)

lemma api_preview_invalid:
  assumes "(\<exists>e. sanitize_ident (fst (split_table (query_param qs ''table'' []))) = Inl e) \<or>
           (\<exists>e. sanitize_ident (snd (split_table (query_param qs ''table'' []))) = Inl e)"
  shows "\<exists>e. api_preview w qs tr = (Inl e, tr)"
  using assms by (auto simp: api_preview_def Let_def split: sum.splits)

text \<open>The loop over the columns, when the two counts of every column succeed.\<close>

lemma column_entry_counts:
  assumes "pg_null_count w sch tab (name c) = Inr (nl (name c))"
    and "pg_unique_count w sch tab (name c) = Inr (uq (name c))"
  shows "\<exists>tr'. column_entry w sch tab c tr = (Inr (expected_entry w sch tab nl uq c), tr')"
  using assms
  by (auto simp: column_entry_def column_null_count_def column_unique_count_def
      numeric_stats_def execute_def Let_def expected_entry_def split: sum.splits)

lemma column_loop_counts:
  assumes "\<forall>c\<in>set cs. pg_null_count w sch tab (name c) = Inr (nl (name c)) \<and>
                     pg_unique_count w sch tab (name c) = Inr (uq (name c))"
  shows "\<exists>tr'. column_loop w sch tab cs acc tr =
           (Inr (acc @ map (expected_entry w sch tab nl uq) cs), tr')"
  using assms
proof (induction cs arbitrary: acc tr)
  case Nil
  then show ?case by simp
next
  case (Cons c cs)
  from Cons.prems have c: "pg_null_count w sch tab (name c) = Inr (nl (name c))"
      "pg_unique_count w sch tab (name c) = Inr (uq (name c))" by simp_all
  from column_entry_counts [where nl = nl and uq = uq and tr = tr, OF c] obtain tr1 where
    e: "column_entry w sch tab c tr = (Inr (expected_entry w sch tab nl uq c), tr1)" by blast
  from Cons.prems have "\<forall>c\<in>set cs. pg_null_count w sch tab (name c) = Inr (nl (name c)) \<and>
                     pg_unique_count w sch tab (name c) = Inr (uq (name c))" by simp
  from Cons.IH [OF this, of "acc @ [expected_entry w sch tab nl uq c]" tr1] e
  show ?case by simp
qed

lemma row_counts_total:
  "pg_row_counts w sch tab (map name cols) = Inr (tot, dupes) \<Longrightarrow>
   table_row_counts_and_dupes w sch tab cols tr =
     (Inr \<lparr>total_rows = tot, duplicate_rows = dupes,
           duplicate_pct =
             (if tot = 0 then Finite 0
              else ieee_div (py_float (of_int dupes)) (py_float (of_int tot)))\<rparr>,
      tr @ [Execute (RowCounts sch tab (map name cols))])"
  using binary64_of_int_nonzero [of tot]
  by (simp add: table_row_counts_and_dupes_def execute_def py_truediv_def py_float_def Let_def)

lemma expected_entry_exclusive:
  "numeric_stats_field (expected_entry w sch tab nl uq c) = None \<or>
   numeric_stats_error (expected_entry w sch tab nl uq c) = None"
  by (simp add: expected_entry_def split: sum.splits)









lemma numeric_integer: "is_numeric_dtype (Some ''integer'')"
  by code_simp

lemma numeric_numeric: "is_numeric_dtype (Some ''numeric'')"
  by code_simp

lemma not_numeric_text: "\<not> is_numeric_dtype (Some ''text'')"
  by code_simp



text \<open>The names of the example database pass validation.\<close>

lemma demo_ident_public: "sanitize_ident ''public'' = Inr ''public''"
  by (simp add: sanitize_ident_def IDENT_RE_match_def re_dollar_def
      ident_start_def ident_cont_def is_upper_def is_lower_def is_digit_def)

lemma demo_ident_t: "sanitize_ident ''t'' = Inr ''t''"
  by (simp add: sanitize_ident_def IDENT_RE_match_def re_dollar_def
      ident_start_def ident_cont_def is_upper_def is_lower_def is_digit_def)

lemma demo_ident_nope: "sanitize_ident ''nope'' = Inr ''nope''"
  by (simp add: sanitize_ident_def IDENT_RE_match_def re_dollar_def
      ident_start_def ident_cont_def is_upper_def is_lower_def is_digit_def)

text \<open>
  Claim C3: a summary request whose schema and table names pass validation, on a
  database that connects and whose catalog lists no column for the table, is answered
  404 with the not-found message; the only statement issued is the catalog lookup, so
  no row or column statistics are computed.
\<close>

theorem summary_not_found:
  assumes "prefix ''/api/summary'' path"
    and "sanitize_ident (fst (split_table (query_param qs ''table'' []))) = Inr sch"
    and "sanitize_ident (snd (split_table (query_param qs ''table'' []))) = Inr tab"
    and "DATABASE_URL w = Some dsn" and "dsn \<noteq> []" and "pg_connect w dsn = None"
    and "pg_columns w sch tab = Inr []"
  shows "do_GET w path qs tr =
           (\<lparr>status = 404, body = J_error (''Tabla '' @ sch @ ''.'' @ tab @ '' no encontrada'')\<rparr>,
            tr @ [Connect dsn, Execute (GetColumns sch tab)])"
  using assms
  by (simp add: do_GET_summary api_summary_def connect_def get_columns_def execute_def)

theorem summary_not_found_witness:
  "do_GET demo_world ''/api/summary'' [''table'' \<mapsto> [''nope'']] [] =
     (\<lparr>status = 404, body = J_error ''Tabla public.nope no encontrada''\<rparr>,
      [Connect ''postgresql://demo'', Execute (GetColumns ''public'' ''nope'')])"
proof -
  have p: "prefix ''/api/summary'' ''/api/summary''" by simp
  have s: "sanitize_ident (fst (split_table (query_param [''table'' \<mapsto> [''nope'']] ''table'' [])))
             = Inr ''public''"
    by (simp add: query_param_def split_table_def demo_ident_public)
  have t: "sanitize_ident (snd (split_table (query_param [''table'' \<mapsto> [''nope'']] ''table'' [])))
             = Inr ''nope''"
    by (simp add: query_param_def split_table_def demo_ident_nope)
  have d: "DATABASE_URL demo_world = Some ''postgresql://demo''" by (simp add: demo_world_def)
  have n: "''postgresql://demo'' \<noteq> []" by simp
  have c: "pg_connect demo_world ''postgresql://demo'' = None" by (simp add: demo_world_def)
  have e: "pg_columns demo_world ''public'' ''nope'' = Inr []" by (simp add: demo_world_def)
  show ?thesis using summary_not_found [OF p s t d n c e, of "[]"] by simp
qed



text \<open>The two optional fields of an entry exclude each other, in every report.\<close>

lemma column_entry_exclusive:
  "column_entry w sch tab c tr = (Inr en, tr') \<Longrightarrow>
     numeric_stats_field en = None \<or> numeric_stats_error en = None"
  by (auto simp: column_entry_def Let_def split: prod.splits sum.splits if_splits)

lemma column_loop_exclusive:
  "column_loop w sch tab cs acc tr = (Inr ms, tr') \<Longrightarrow>
   list_all (\<lambda>en. numeric_stats_field en = None \<or> numeric_stats_error en = None) acc \<Longrightarrow>
   list_all (\<lambda>en. numeric_stats_field en = None \<or> numeric_stats_error en = None) ms"
proof (induction cs arbitrary: acc tr)
  case Nil
  then show ?case by simp
next
  case (Cons c cs)
  from Cons.prems(1) obtain en tr1 where
    e: "column_entry w sch tab c tr = (Inr en, tr1)" and
    l: "column_loop w sch tab cs (acc @ [en]) tr1 = (Inr ms, tr')"
    by (auto split: prod.splits sum.splits)
  from column_entry_exclusive [OF e] Cons.prems(2)
  have "list_all (\<lambda>en. numeric_stats_field en = None \<or> numeric_stats_error en = None) (acc @ [en])"
    by simp
  from Cons.IH [OF l this] show ?case .
qed

lemma api_summary_exclusive:
  assumes "api_summary w qs tr = (Inr resp, tr')" and "body resp = J_summary r"
  shows "list_all (\<lambda>en. numeric_stats_field en = None \<or> numeric_stats_error en = None) (columns r)"
  using assms
  by (auto simp: api_summary_def Let_def split: prod.splits sum.splits if_splits
      dest!: column_loop_exclusive)

lemma api_tables_body: "api_tables w tr = (Inr resp, tr') \<Longrightarrow> body resp \<noteq> J_summary r"
  by (auto simp: api_tables_def split: prod.splits sum.splits)

lemma api_histogram_body: "api_histogram w qs tr = (Inr resp, tr') \<Longrightarrow> body resp \<noteq> J_summary r"
  by (auto simp: api_histogram_def Let_def split: prod.splits sum.splits)

lemma api_preview_body: "api_preview w qs tr = (Inr resp, tr') \<Longrightarrow> body resp \<noteq> J_summary r"
  by (auto simp: api_preview_def Let_def split: prod.splits sum.splits)

lemma do_GET_summary_body:
  assumes "do_GET w path qs tr = (resp, tr')" and "body resp = J_summary r"
  shows "api_summary w qs tr = (Inr resp, tr')"
  using assms
  by (auto simp: do_GET_def Let_def split: prod.splits sum.splits if_splits
      dest: api_tables_body api_histogram_body api_preview_body)

text \<open>
  Claim C2: in every summary report no column carries both the statistics and the
  statistics error. And a failing statistics statement never aborts the report: when
  the names pass validation, the database connects, the catalog lists the columns, the
  row counts and the two counts of every column succeed, the answer is 200 with a
  report that holds every column in catalog order, each with its null and distinct
  counts; a numeric column whose statistics statement fails carries the error as a
  string and no statistics, whatever the statement does on the other columns.
\<close>

theorem summary_stats_failure_isolated:
  "(do_GET w path qs tr = (resp, tr') \<and> body resp = J_summary r \<longrightarrow>
      list_all (\<lambda>en. numeric_stats_field en = None \<or> numeric_stats_error en = None) (columns r))
   \<and> (prefix ''/api/summary'' path
        \<and> sanitize_ident (fst (split_table (query_param qs ''table'' []))) = Inr sch
        \<and> sanitize_ident (snd (split_table (query_param qs ''table'' []))) = Inr tab
        \<and> DATABASE_URL w = Some dsn \<and> dsn \<noteq> [] \<and> pg_connect w dsn = None
        \<and> pg_columns w sch tab = Inr crows \<and> crows \<noteq> []
        \<and> pg_row_counts w sch tab (map fst crows) = Inr rc
        \<and> list_all (\<lambda>cr. pg_null_count w sch tab (fst cr) = Inr (nl (fst cr)) \<and>
                          pg_unique_count w sch tab (fst cr) = Inr (uq (fst cr))) crows
      \<longrightarrow> (\<exists>rs tr''. do_GET w path qs tr =
             (\<lparr>status = 200,
               body = J_summary \<lparr>table = sch @ ''.'' @ tab, row_stats = rs,
                 columns = map (\<lambda>cr. expected_entry w sch tab nl uq
                                        \<lparr>name = fst cr, data_type = snd cr\<rparr>) crows\<rparr>\<rparr>, tr'')))"
proof (intro conjI impI)
  assume "do_GET w path qs tr = (resp, tr') \<and> body resp = J_summary r"
  then show "list_all (\<lambda>en. numeric_stats_field en = None \<or> numeric_stats_error en = None)
               (columns r)"
    using do_GET_summary_body api_summary_exclusive by blast
next
  assume a: "prefix ''/api/summary'' path
        \<and> sanitize_ident (fst (split_table (query_param qs ''table'' []))) = Inr sch
        \<and> sanitize_ident (snd (split_table (query_param qs ''table'' []))) = Inr tab
        \<and> DATABASE_URL w = Some dsn \<and> dsn \<noteq> [] \<and> pg_connect w dsn = None
        \<and> pg_columns w sch tab = Inr crows \<and> crows \<noteq> []
        \<and> pg_row_counts w sch tab (map fst crows) = Inr rc
        \<and> list_all (\<lambda>cr. pg_null_count w sch tab (fst cr) = Inr (nl (fst cr)) \<and>
                          pg_unique_count w sch tab (fst cr) = Inr (uq (fst cr))) crows"
  define cols where "cols = map (\<lambda>cr. \<lparr>name = fst cr, data_type = snd cr\<rparr>) crows"
  obtain tot dupes where rc: "rc = (tot, dupes)" by (cases rc)
  have names: "map name cols = map fst crows" by (simp add: cols_def comp_def)
  have ne: "cols \<noteq> []" using a by (simp add: cols_def)
  have cnt: "\<forall>c\<in>set cols. pg_null_count w sch tab (name c) = Inr (nl (name c)) \<and>
                            pg_unique_count w sch tab (name c) = Inr (uq (name c))"
    using a by (auto simp: cols_def list_all_iff)
  let ?tr2 = "tr @ [Connect dsn, Execute (GetColumns sch tab)]"
  let ?tr3 = "?tr2 @ [Execute (RowCounts sch tab (map name cols))]"
  let ?rs = "\<lparr>total_rows = tot, duplicate_rows = dupes,
              duplicate_pct =
                (if tot = 0 then Finite 0
                 else ieee_div (py_float (of_int dupes)) (py_float (of_int tot)))\<rparr>"
  have conn: "connect w tr = (Inr (), tr @ [Connect dsn])"
    using a by (simp add: connect_def)
  have gc: "get_columns w sch tab (tr @ [Connect dsn]) = (Inr cols, ?tr2)"
    using a by (simp add: get_columns_def execute_def cols_def)
  have rows: "table_row_counts_and_dupes w sch tab cols ?tr2 = (Inr ?rs, ?tr3)"
    using a rc names by (simp add: row_counts_total)
  from column_loop_counts [OF cnt, of "[]" ?tr3] obtain tr4 where
    loop: "column_loop w sch tab cols [] ?tr3 =
             (Inr (map (expected_entry w sch tab nl uq) cols), tr4)" by auto
  have "api_summary w qs tr =
      (Inr \<lparr>status = 200,
        body = J_summary \<lparr>table = sch @ ''.'' @ tab, row_stats = ?rs,
                          columns = map (expected_entry w sch tab nl uq) cols\<rparr>\<rparr>, tr4)"
    using a conn gc ne rows loop by (simp add: api_summary_def Let_def)
  then have "do_GET w path qs tr =
      (\<lparr>status = 200,
        body = J_summary \<lparr>table = sch @ ''.'' @ tab, row_stats = ?rs,
                          columns = map (expected_entry w sch tab nl uq) cols\<rparr>\<rparr>, tr4)"
    using a by (simp add: do_GET_summary)
  then show "\<exists>rs tr''. do_GET w path qs tr =
             (\<lparr>status = 200,
               body = J_summary \<lparr>table = sch @ ''.'' @ tab, row_stats = rs,
                 columns = map (\<lambda>cr. expected_entry w sch tab nl uq
                                        \<lparr>name = fst cr, data_type = snd cr\<rparr>) crows\<rparr>\<rparr>, tr'')"
    by (simp add: cols_def comp_def)
qed

theorem summary_stats_failure_isolated_witness:
  "\<exists>rs tr'. do_GET demo_world ''/api/summary'' [''table'' \<mapsto> [''t'']] [] =
     (\<lparr>status = 200,
       body = J_summary \<lparr>table = ''public.t'', row_stats = rs,
         columns =
           [\<lparr>name = ''id'', data_type = Some ''integer'', nulls = 1, unique = 2,
             numeric_stats_field = Some demo_stats, numeric_stats_error = None\<rparr>,
            \<lparr>name = ''amount'', data_type = Some ''numeric'', nulls = 1, unique = 1,
             numeric_stats_field = None,
             numeric_stats_error = Some ''canceling statement due to statement timeout''\<rparr>,
            \<lparr>name = ''name'', data_type = Some ''text'', nulls = 0, unique = 2,
             numeric_stats_field = None, numeric_stats_error = None\<rparr>]\<rparr>\<rparr>, tr')"
proof -
  let ?qs = "[''table'' \<mapsto> [''t'']]"
  let ?nl = "\<lambda>c. if c = ''name'' then 0 else (1::int)"
  let ?uq = "\<lambda>c. if c = ''amount'' then 1 else (2::int)"
  have h: "prefix ''/api/summary'' ''/api/summary''
        \<and> sanitize_ident (fst (split_table (query_param ?qs ''table'' []))) = Inr ''public''
        \<and> sanitize_ident (snd (split_table (query_param ?qs ''table'' []))) = Inr ''t''
        \<and> DATABASE_URL demo_world = Some ''postgresql://demo'' \<and> ''postgresql://demo'' \<noteq> []
        \<and> pg_connect demo_world ''postgresql://demo'' = None
        \<and> pg_columns demo_world ''public'' ''t'' = Inr demo_columns \<and> demo_columns \<noteq> []
        \<and> pg_row_counts demo_world ''public'' ''t'' (map fst demo_columns)
            = Inr (sql_row_counts demo_rows (length (map fst demo_columns)))
        \<and> list_all (\<lambda>cr. pg_null_count demo_world ''public'' ''t'' (fst cr) = Inr (?nl (fst cr)) \<and>
                          pg_unique_count demo_world ''public'' ''t'' (fst cr) = Inr (?uq (fst cr)))
             demo_columns"
    by (simp add: query_param_def split_table_def demo_ident_public demo_ident_t
        demo_world_def demo_columns_def)
  have cols: "map (\<lambda>cr. expected_entry demo_world ''public'' ''t'' ?nl ?uq
                            \<lparr>name = fst cr, data_type = snd cr\<rparr>) demo_columns =
           [\<lparr>name = ''id'', data_type = Some ''integer'', nulls = 1, unique = 2,
             numeric_stats_field = Some demo_stats, numeric_stats_error = None\<rparr>,
            \<lparr>name = ''amount'', data_type = Some ''numeric'', nulls = 1, unique = 1,
             numeric_stats_field = None,
             numeric_stats_error = Some ''canceling statement due to statement timeout''\<rparr>,
            \<lparr>name = ''name'', data_type = Some ''text'', nulls = 0, unique = 2,
             numeric_stats_field = None, numeric_stats_error = None\<rparr>]"
    by (simp add: demo_columns_def expected_entry_def demo_world_def
        numeric_integer numeric_numeric not_numeric_text)
  from summary_stats_failure_isolated [THEN conjunct2, rule_format, OF h, of "[]"]
  show ?thesis unfolding cols by (simp add: fun_upd_def)
qed

section \<open>Properties of the row profiler\<close>

lemma sql_count_distinct_le: "sql_count_distinct rows k \<le> length rows"
proof -
  have "length (remdups (filter (\<lambda>r. r \<noteq> [SNull]) rows)) \<le> length (filter (\<lambda>r. r \<noteq> [SNull]) rows)"
    by (rule length_remdups_leq)
  also have "\<dots> \<le> length rows" by (rule length_filter_le)
  finally show ?thesis
    using length_remdups_leq [of rows] by (simp add: sql_count_distinct_def)
qed

text \<open>
  Claim C5: when the database answers the row-count statement as SQL prescribes for
  the rows of the table, the row profiler returns (it raises no division error) and the
  duplicate count is between 0 and the total. On a table without rows the percentage is
  exactly 0.0. On any other table the float of the total is not zero, and the percentage
  is what the float division of the float of the duplicate count by the float of the
  total returns; up to \<^verbatim>\<open>2^53\<close> rows both conversions are exact, so the percentage is
  the float nearest to the quotient of the two counts, a float between 0 and 1.
\<close>

theorem row_stats_invariant:
  "pg_row_counts w sch tab (map name cols) = Inr (sql_row_counts rows (length cols)) \<longrightarrow>
     (\<exists>rs. table_row_counts_and_dupes w sch tab cols tr =
             (Inr rs, tr @ [Execute (RowCounts sch tab (map name cols))])
        \<and> total_rows rs = int (length rows)
        \<and> 0 \<le> duplicate_rows rs \<and> duplicate_rows rs \<le> total_rows rs
        \<and> (total_rows rs = 0 \<longrightarrow> duplicate_pct rs = Finite 0)
        \<and> (total_rows rs \<noteq> 0 \<longrightarrow>
             py_float (of_int (total_rows rs)) \<noteq> Finite 0
             \<and> py_truediv (py_float (of_int (duplicate_rows rs)))
                           (py_float (of_int (total_rows rs)))
                 = Inr (duplicate_pct rs))
        \<and> (total_rows rs \<noteq> 0 \<and> total_rows rs \<le> 2 ^ 53 \<longrightarrow>
             duplicate_pct rs
               = binary64 (of_int (duplicate_rows rs) / of_int (total_rows rs))
             \<and> (\<exists>p. duplicate_pct rs = Finite p \<and> 0 \<le> p \<and> p \<le> 1)))"
proof
  assume a: "pg_row_counts w sch tab (map name cols) = Inr (sql_row_counts rows (length cols))"
  define tot where "tot = int (length rows)"
  define dup where "dup = int (length rows) - int (sql_count_distinct rows (length cols))"
  define rs where
    "rs = \<lparr>total_rows = tot, duplicate_rows = dup,
           duplicate_pct =
             (if tot = 0 then Finite 0
              else ieee_div (py_float (of_int dup)) (py_float (of_int tot)))\<rparr>"
  have "pg_row_counts w sch tab (map name cols) = Inr (tot, dup)"
    using a by (simp add: sql_row_counts_def tot_def dup_def)
  from row_counts_total [OF this, of tr]
  have run: "table_row_counts_and_dupes w sch tab cols tr =
               (Inr rs, tr @ [Execute (RowCounts sch tab (map name cols))])"
    by (simp add: rs_def)
  have d0: "0 \<le> dup" and d1: "dup \<le> tot"
    using sql_count_distinct_le [of rows "length cols"] by (simp_all add: dup_def tot_def)
  have nz: "py_float (of_int tot) \<noteq> Finite 0" if "tot \<noteq> 0"
    using binary64_of_int_nonzero [OF that] by (simp add: py_float_def)
  have div: "py_truediv (py_float (of_int dup)) (py_float (of_int tot)) = Inr (duplicate_pct rs)"
    if "tot \<noteq> 0"
    using nz [OF that] that by (simp add: py_truediv_def rs_def)
  have small: "duplicate_pct rs = binary64 (of_int dup / of_int tot)
                 \<and> (\<exists>p. duplicate_pct rs = Finite p \<and> 0 \<le> p \<and> p \<le> 1)"
    if t: "tot \<noteq> 0" "tot \<le> 2 ^ 53"
  proof -
    have tp: "0 < tot" using t(1) by (simp add: tot_def)
    have "\<bar>tot\<bar> \<le> 2 ^ 53" "\<bar>dup\<bar> \<le> 2 ^ 53" using t d0 d1 tp by simp_all
    then have e: "py_float (of_int tot) = Finite (of_int tot)"
                 "py_float (of_int dup) = Finite (of_int dup)"
      by (simp_all only: py_float_def binary64_of_int_exact)
    have pct: "duplicate_pct rs = binary64 (of_int dup / of_int tot)"
      using t(1) by (simp add: rs_def e)
    have "(0 :: rat) \<le> of_int dup / of_int tot" "(of_int dup :: rat) / of_int tot \<le> 1"
      using d0 d1 tp by (simp_all add: pos_divide_le_eq)
    from binary64_unit_interval [OF this] pct show ?thesis by simp
  qed
  have "total_rows rs = int (length rows)
        \<and> 0 \<le> duplicate_rows rs \<and> duplicate_rows rs \<le> total_rows rs
        \<and> (total_rows rs = 0 \<longrightarrow> duplicate_pct rs = Finite 0)
        \<and> (total_rows rs \<noteq> 0 \<longrightarrow>
             py_float (of_int (total_rows rs)) \<noteq> Finite 0
             \<and> py_truediv (py_float (of_int (duplicate_rows rs)))
                           (py_float (of_int (total_rows rs)))
                 = Inr (duplicate_pct rs))
        \<and> (total_rows rs \<noteq> 0 \<and> total_rows rs \<le> 2 ^ 53 \<longrightarrow>
             duplicate_pct rs
               = binary64 (of_int (duplicate_rows rs) / of_int (total_rows rs))
             \<and> (\<exists>p. duplicate_pct rs = Finite p \<and> 0 \<le> p \<and> p \<le> 1))"
  proof -
    have sel: "total_rows rs = tot" "duplicate_rows rs = dup" by (simp_all add: rs_def)
    have c1: "total_rows rs = int (length rows)" by (simp add: rs_def tot_def)
    have c2: "0 \<le> duplicate_rows rs \<and> duplicate_rows rs \<le> total_rows rs"
      using d0 d1 by (simp add: rs_def)
    have c3: "total_rows rs = 0 \<longrightarrow> duplicate_pct rs = Finite 0" by (simp add: rs_def)
    have c4: "total_rows rs \<noteq> 0 \<longrightarrow>
             py_float (of_int (total_rows rs)) \<noteq> Finite 0
             \<and> py_truediv (py_float (of_int (duplicate_rows rs)))
                           (py_float (of_int (total_rows rs)))
                 = Inr (duplicate_pct rs)"
      unfolding sel using nz div by blast
    have c5: "total_rows rs \<noteq> 0 \<and> total_rows rs \<le> 2 ^ 53 \<longrightarrow>
             duplicate_pct rs
               = binary64 (of_int (duplicate_rows rs) / of_int (total_rows rs))
             \<and> (\<exists>p. duplicate_pct rs = Finite p \<and> 0 \<le> p \<and> p \<le> 1)"
      unfolding sel using small by blast
    from c1 c2 c3 c4 c5 show ?thesis by blast
  qed
  with run show "\<exists>rs. table_row_counts_and_dupes w sch tab cols tr =
             (Inr rs, tr @ [Execute (RowCounts sch tab (map name cols))])
        \<and> total_rows rs = int (length rows)
        \<and> 0 \<le> duplicate_rows rs \<and> duplicate_rows rs \<le> total_rows rs
        \<and> (total_rows rs = 0 \<longrightarrow> duplicate_pct rs = Finite 0)
        \<and> (total_rows rs \<noteq> 0 \<longrightarrow>
             py_float (of_int (total_rows rs)) \<noteq> Finite 0
             \<and> py_truediv (py_float (of_int (duplicate_rows rs)))
                           (py_float (of_int (total_rows rs)))
                 = Inr (duplicate_pct rs))
        \<and> (total_rows rs \<noteq> 0 \<and> total_rows rs \<le> 2 ^ 53 \<longrightarrow>
             duplicate_pct rs
               = binary64 (of_int (duplicate_rows rs) / of_int (total_rows rs))
             \<and> (\<exists>p. duplicate_pct rs = Finite p \<and> 0 \<le> p \<and> p \<le> 1))"
    by blast
qed

theorem row_stats_invariant_witness:
  "table_row_counts_and_dupes demo_world ''public'' ''t''
      (map (\<lambda>cr. \<lparr>name = fst cr, data_type = snd cr\<rparr>) demo_columns) [] =
     (Inr \<lparr>total_rows = 4, duplicate_rows = 1, duplicate_pct = Finite (1 / 4)\<rparr>,
      [Execute (RowCounts ''public'' ''t'' [''id'', ''amount'', ''name''])])
   \<and> table_row_counts_and_dupes
        (demo_world\<lparr>pg_row_counts :=
           \<lambda>sch tab cols. Inr (sql_row_counts (tl demo_rows) (length cols))\<rparr>)
        ''public'' ''t'' (map (\<lambda>cr. \<lparr>name = fst cr, data_type = snd cr\<rparr>) demo_columns) [] =
     (Inr \<lparr>total_rows = 3, duplicate_rows = 1,
           duplicate_pct = Finite (6004799503160661 / 18014398509481984)\<rparr>,
      [Execute (RowCounts ''public'' ''t'' [''id'', ''amount'', ''name''])])
   \<and> table_row_counts_and_dupes
        (demo_world\<lparr>pg_row_counts := \<lambda>sch tab cols. Inr (sql_row_counts [] (length cols))\<rparr>)
        ''public'' ''t'' (map (\<lambda>cr. \<lparr>name = fst cr, data_type = snd cr\<rparr>) demo_columns) [] =
     (Inr \<lparr>total_rows = 0, duplicate_rows = 0, duplicate_pct = Finite 0\<rparr>,
      [Execute (RowCounts ''public'' ''t'' [''id'', ''amount'', ''name''])])"
proof -
  let ?cols = "map (\<lambda>cr. \<lparr>name = fst cr, data_type = snd cr\<rparr>) demo_columns"
  let ?w3 = "demo_world\<lparr>pg_row_counts :=
               \<lambda>sch tab cols. Inr (sql_row_counts (tl demo_rows) (length cols))\<rparr>"
  let ?w0 = "demo_world\<lparr>pg_row_counts := \<lambda>sch tab cols. Inr (sql_row_counts [] (length cols))\<rparr>"
  have names: "map name ?cols = [''id'', ''amount'', ''name'']" by (simp add: demo_columns_def)
  have h: "pg_row_counts demo_world ''public'' ''t'' (map name ?cols) =
             Inr (sql_row_counts demo_rows (length ?cols))"
    by (simp add: demo_world_def)
  have h3: "pg_row_counts ?w3 ''public'' ''t'' (map name ?cols) =
              Inr (sql_row_counts (tl demo_rows) (length ?cols))"
    by simp
  have h0: "pg_row_counts ?w0 ''public'' ''t'' (map name ?cols) =
              Inr (sql_row_counts [] (length ?cols))"
    by simp
  have c4: "sql_row_counts demo_rows (length ?cols) = (4, 1)"
    by (simp add: sql_row_counts_def sql_count_distinct_def demo_rows_def demo_columns_def)
  have c3: "sql_row_counts (tl demo_rows) (length ?cols) = (3, 1)"
    by (simp add: sql_row_counts_def sql_count_distinct_def demo_rows_def demo_columns_def)
  have run: "duplicate_rows rs = d"
    if "table_row_counts_and_dupes w ''public'' ''t'' ?cols [] = (Inr rs, tr')"
      and "pg_row_counts w ''public'' ''t'' (map name ?cols) = Inr (t, d)" for w rs tr' t d
    using that
    by (auto simp: table_row_counts_and_dupes_def execute_def Let_def split: if_splits sum.splits)
  from row_stats_invariant [rule_format, OF h, of "[]", unfolded append_Nil] obtain rs where
    rs: "table_row_counts_and_dupes demo_world ''public'' ''t'' ?cols [] =
           (Inr rs, [Execute (RowCounts ''public'' ''t'' (map name ?cols))])"
      "total_rows rs = int (length demo_rows)"
      "total_rows rs \<noteq> 0 \<longrightarrow>
         py_truediv (py_float (of_int (duplicate_rows rs))) (py_float (of_int (total_rows rs)))
           = Inr (duplicate_pct rs)"
    by blast
  have "duplicate_rows rs = 1" using run [OF rs(1)] h c4 by simp
  with rs(2,3) have one: "rs = \<lparr>total_rows = 4, duplicate_rows = 1, duplicate_pct = Finite (1 / 4)\<rparr>"
    by (cases rs)
       (simp add: demo_rows_def py_truediv_def py_float_def binary64_1 binary64_4 binary64_quarter)
  from row_stats_invariant [rule_format, OF h3, of "[]", unfolded append_Nil] obtain rs3 where
    rs3: "table_row_counts_and_dupes ?w3 ''public'' ''t'' ?cols [] =
           (Inr rs3, [Execute (RowCounts ''public'' ''t'' (map name ?cols))])"
      "total_rows rs3 = int (length (tl demo_rows))"
      "total_rows rs3 \<noteq> 0 \<longrightarrow>
         py_truediv (py_float (of_int (duplicate_rows rs3))) (py_float (of_int (total_rows rs3)))
           = Inr (duplicate_pct rs3)"
    by blast
  have "duplicate_rows rs3 = 1" using run [OF rs3(1)] h3 c3 by simp
  with rs3(2,3) have three: "rs3 = \<lparr>total_rows = 3, duplicate_rows = 1,
       duplicate_pct = Finite (6004799503160661 / 18014398509481984)\<rparr>"
    by (cases rs3)
       (simp add: demo_rows_def py_truediv_def py_float_def binary64_1 binary64_3 binary64_third)
  from row_stats_invariant [rule_format, OF h0, of "[]", unfolded append_Nil] obtain rs0 where
    rs0: "table_row_counts_and_dupes ?w0 ''public'' ''t'' ?cols [] =
           (Inr rs0, [Execute (RowCounts ''public'' ''t'' (map name ?cols))])"
      "total_rows rs0 = int (length ([] :: sqlval list list))"
      "0 \<le> duplicate_rows rs0" "duplicate_rows rs0 \<le> total_rows rs0"
      "total_rows rs0 = 0 \<longrightarrow> duplicate_pct rs0 = Finite 0"
    by blast
  have zero: "rs0 = \<lparr>total_rows = 0, duplicate_rows = 0, duplicate_pct = Finite 0\<rparr>"
    using rs0(2-5) by (cases rs0) simp
  show ?thesis using rs(1) rs3(1) rs0(1) one three zero names by simp
qed

section \<open>Properties of the histogram builder\<close>

lemma collect_length: "collect rs = Inr xs \<Longrightarrow> length xs = length rs"
proof (induction rs arbitrary: xs rule: collect.induct)
  case 1
  then show ?case by simp
next
  case (2 e rs)
  then show ?case by simp
next
  case (3 x rs)
  then show ?case by (auto split: sum.splits)
qed

lemma length_non_null: "length (non_null vals) = length (filter (\<lambda>v. v \<noteq> None) vals)"
  by (induction vals) (auto simp: non_null_def split: option.splits)

text \<open>The groups of a GROUP BY partition the rows.\<close>

lemma sum_key_indicator:
  "distinct ks \<Longrightarrow> a \<in> set ks \<Longrightarrow> (\<Sum>k\<leftarrow>ks. if a = k then 1 else 0) = (1 :: nat)"
proof (induction ks)
  case Nil
  then show ?case by simp
next
  case (Cons k ks)
  show ?case
  proof (cases "a = k")
    case True
    with Cons.prems have "a \<notin> set ks" by simp
    then have "(\<Sum>k\<leftarrow>ks. if a = k then 1 else 0) = (0 :: nat)"
      by (induction ks) auto
    with True show ?thesis by simp
  next
    case False
    with Cons show ?thesis by simp
  qed
qed

lemma groups_partition:
  "distinct ks \<Longrightarrow> f ` set rows \<subseteq> set ks \<Longrightarrow>
     (\<Sum>k\<leftarrow>ks. length (filter (\<lambda>r. f r = k) rows)) = length rows"
proof (induction rows)
  case Nil
  then show ?case by (simp add: sum_list_0)
next
  case (Cons r rows)
  have "(\<Sum>k\<leftarrow>ks. length (filter (\<lambda>x. f x = k) (r # rows)))
          = (\<Sum>k\<leftarrow>ks. (if f r = k then 1 else 0) + length (filter (\<lambda>x. f x = k) rows))"
    by (intro arg_cong [where f = sum_list] map_cong) auto
  also have "\<dots> = (\<Sum>k\<leftarrow>ks. if f r = k then 1 else 0)
                    + (\<Sum>k\<leftarrow>ks. length (filter (\<lambda>x. f x = k) rows))"
    by (simp add: sum_list_addf)
  also have "\<dots> = 1 + length rows"
    using Cons sum_key_indicator [of ks "f r"] by simp
  finally show ?case by simp
qed

lemma int_sum_list: "(\<Sum>x\<leftarrow>xs. int (f x)) = int (\<Sum>x\<leftarrow>xs. f x)"
  by (induction xs) auto

lemma sum_list_insort_key:
  "sum_list (map h (insort_key f x xs)) = h x + sum_list (map h (xs :: 'a list) :: int list)"
  by (induction xs) auto

lemma sum_list_sort_key:
  "sum_list (map h (sort_key f xs)) = sum_list (map h (xs :: 'a list) :: int list)"
  by (induction xs) (auto simp: sum_list_insort_key)

lemma distinct_map_sort_key:
  "distinct (map h xs) \<Longrightarrow> distinct (map h (sort_key f xs))"
proof -
  assume d: "distinct (map h xs)"
  have "card (h ` set (sort_key f xs)) = card (h ` set xs)" by simp
  also have "\<dots> = length xs" using d distinct_card [of "map h xs"] by simp
  finally have "card (set (map h (sort_key f xs))) = length (map h (sort_key f xs))" by simp
  then show ?thesis by (rule card_distinct)
qed

lemma group_nonempty:
  "k \<in> set (map f rows) \<Longrightarrow> filter (\<lambda>r. f r = k) rows \<noteq> []"
  by (auto simp: filter_empty_conv)

lemma histogram_result:
  assumes "pg_histogram w sch tab col buckets = sql_histogram col vals buckets"
    and "histogram w sch tab col buckets tr = (Inr data, tr')"
  shows "\<exists>joined :: (rat \<times> int) list. length joined = length (non_null vals) \<and>
           data = map (\<lambda>(bkt, ct, mn, mx).
                         \<lparr>bucket = bkt, count = ct,
                          min_v = map_option py_float mn, max_v = map_option py_float mx\<rparr>)
                    (sort_key fst
                       (map (\<lambda>g. (snd (hd g), int (length g),
                                   Some (Min (set (non_null vals))),
                                   Some (Max (set (non_null vals)))))
                          (map (\<lambda>k. filter (\<lambda>r. group_key col r = k) joined)
                             (remdups (map (group_key col) joined)))))"
proof (cases "non_null vals = []")
  case True
  with assms have "data = []"
    by (auto simp: histogram_def execute_def sql_histogram_def Let_def split: sum.splits)
  with True show ?thesis by simp
next
  case False
  let ?xs = "non_null vals"
  from assms False obtain bkts where
    c: "collect (map (\<lambda>x. width_bucket x (Min (set ?xs)) (Max (set ?xs)) buckets) ?xs) = Inr bkts"
    and d: "data = map (\<lambda>(bkt, ct, mn, mx). \<lparr>bucket = bkt, count = ct,
                    min_v = map_option py_float mn, max_v = map_option py_float mx\<rparr>)
                (sort_key fst
                   (map (\<lambda>g. (snd (hd g), int (length g), Some (Min (set ?xs)), Some (Max (set ?xs))))
                      (map (\<lambda>k. filter (\<lambda>r. group_key col r = k) (zip ?xs bkts))
                         (remdups (map (group_key col) (zip ?xs bkts))))))"
    by (auto simp: histogram_def execute_def sql_histogram_def Let_def split: sum.splits)
  from collect_length [OF c] have len: "length (zip ?xs bkts) = length ?xs" by simp
  from len d show ?thesis
    by (intro exI [of _ "zip ?xs bkts"]) simp
qed

text \<open>The histogram of the column \<^verbatim>\<open>id\<close> of the example table, in two buckets.\<close>

lemma demo_sql_histogram:
  "sql_histogram ''id'' [Some 1, Some 2, None, Some 2] 2 =
     Inr [(1, 1, Some 1, Some 2), (3, 2, Some 1, Some 2)]"
  by code_simp

lemma demo_histogram:
  "histogram demo_world ''public'' ''t'' ''id'' 2 [] =
     (Inr [\<lparr>bucket = 1, count = 1, min_v = Some (Finite 1), max_v = Some (Finite 2)\<rparr>,
           \<lparr>bucket = 3, count = 2, min_v = Some (Finite 1), max_v = Some (Finite 2)\<rparr>],
      [Execute (HistogramQ ''public'' ''t'' ''id'' 2)])"
  by (simp add: histogram_def execute_def demo_world_def demo_sql_histogram py_float_def
      binary64_1 binary64_2)

lemma demo_pg_histogram:
  "pg_histogram demo_world ''public'' ''t'' ''id'' 2 =
     sql_histogram ''id'' [Some 1, Some 2, None, Some 2] 2"
  by (simp add: demo_world_def)

text \<open>The histogram of a numeric column that holds 0.1, 0.3, NULL and 0.1.\<close>

lemma price_sql_histogram:
  "sql_histogram ''price'' [Some (1 / 10), Some (3 / 10), None, Some (1 / 10)] 2 =
     Inr [(1, 2, Some (1 / 10), Some (3 / 10)), (3, 1, Some (1 / 10), Some (3 / 10))]"
  by code_simp

text \<open>
  Claim C6: when the database answers the histogram statement as SQL prescribes for
  the values of the column, every histogram the builder returns lists its buckets by
  ascending index, every listed bucket counts at least one row, and the counts add up
  to the number of non-null values of the column. Unless the column is itself named
  \<^verbatim>\<open>bkt\<close>, no index is listed twice.
\<close>

theorem histogram_buckets_ascending_counted:
  "pg_histogram w sch tab col buckets = sql_histogram col vals buckets
   \<and> histogram w sch tab col buckets tr = (Inr data, tr') \<longrightarrow>
     sorted (map bucket data)
     \<and> list_all (\<lambda>b. 1 \<le> count b) data
     \<and> sum_list (map count data) = int (length (filter (\<lambda>v. v \<noteq> None) vals))
     \<and> (col \<noteq> ''bkt'' \<longrightarrow> distinct (map bucket data))"
proof
  assume "pg_histogram w sch tab col buckets = sql_histogram col vals buckets
   \<and> histogram w sch tab col buckets tr = (Inr data, tr')"
  then obtain joined :: "(rat \<times> int) list" where
    len: "length joined = length (non_null vals)" and
    d: "data = map (\<lambda>(bkt, ct, mn, mx).
                         \<lparr>bucket = bkt, count = ct,
                          min_v = map_option py_float mn, max_v = map_option py_float mx\<rparr>)
                    (sort_key fst
                       (map (\<lambda>g. (snd (hd g), int (length g),
                                   Some (Min (set (non_null vals))),
                                   Some (Max (set (non_null vals)))))
                          (map (\<lambda>k. filter (\<lambda>r. group_key col r = k) joined)
                             (remdups (map (group_key col) joined)))))"
    using histogram_result by blast
  let ?keys = "remdups (map (group_key col) joined)"
  let ?groups = "map (\<lambda>k. filter (\<lambda>r. group_key col r = k) joined) ?keys"
  let ?rows = "map (\<lambda>g. (snd (hd g), int (length g),
                           Some (Min (set (non_null vals))),
                           Some (Max (set (non_null vals))))) ?groups"
  have b: "map bucket data = map fst (sort_key fst ?rows)"
    unfolding d by (simp add: comp_def case_prod_beta)
  have c: "map count data = map (\<lambda>r. fst (snd r)) (sort_key fst ?rows)"
    unfolding d by (simp add: comp_def case_prod_beta)
  have s1: "sorted (map bucket data)"
    unfolding b by (rule sorted_sort_key)
  have s2: "list_all (\<lambda>b. 1 \<le> count b) data"
  proof -
    have pos: "1 \<le> int (length (filter (\<lambda>r. group_key col r = k) joined))"
      if "k \<in> set (map (group_key col) joined)" for k
      using group_nonempty [OF that] by (simp add: Suc_le_eq)
    have "list_all (\<lambda>r. 1 \<le> fst (snd r)) ?rows"
      using pos by (simp add: list.pred_map comp_def list_all_iff)
    then have "\<forall>r\<in>set (sort_key fst ?rows). 1 \<le> fst (snd r)"
      by (simp add: list_all_iff)
    then have "\<forall>x\<in>set (map count data). 1 \<le> x"
      unfolding c by auto
    then show ?thesis by (auto simp: list_all_iff)
  qed
  have s3: "sum_list (map count data) = int (length (filter (\<lambda>v. v \<noteq> None) vals))"
  proof -
    have "sum_list (map count data) = sum_list (map (\<lambda>r. fst (snd r)) ?rows)"
      unfolding c by (rule sum_list_sort_key)
    also have "\<dots> = int (\<Sum>k\<leftarrow>?keys. length (filter (\<lambda>r. group_key col r = k) joined))"
      by (simp add: comp_def int_sum_list)
    also have "\<dots> = int (length joined)"
      by (subst groups_partition) auto
    finally show ?thesis by (simp add: len length_non_null)
  qed
  have s4: "distinct (map bucket data)" if nb: "col \<noteq> ''bkt''"
  proof -
    have key: "of_int (snd (hd (filter (\<lambda>r. group_key col r = k) joined))) = k"
      if "k \<in> set ?keys" for k
    proof -
      from that have "filter (\<lambda>r. group_key col r = k) joined \<noteq> []"
        using group_nonempty [of k "group_key col" joined] by simp
      then have "hd (filter (\<lambda>r. group_key col r = k) joined)
                   \<in> set (filter (\<lambda>r. group_key col r = k) joined)" by (rule hd_in_set)
      then have "group_key col (hd (filter (\<lambda>r. group_key col r = k) joined)) = k" by simp
      with nb show ?thesis by (simp add: group_key_def)
    qed
    have "map (\<lambda>r. (of_int (fst r) :: rat)) ?rows = ?keys"
      using key by (simp add: comp_def) (rule map_idI, simp)
    then have "distinct (map (\<lambda>r. (of_int (fst r) :: rat)) ?rows)" by simp
    then have "distinct (map (of_int :: int \<Rightarrow> rat) (map fst ?rows))" by (simp add: comp_def)
    then have "distinct (map fst ?rows)" by (simp only: distinct_map)
    then show ?thesis unfolding b by (rule distinct_map_sort_key)
  qed
  from s1 s2 s3 s4 show "sorted (map bucket data)
     \<and> list_all (\<lambda>b. 1 \<le> count b) data
     \<and> sum_list (map count data) = int (length (filter (\<lambda>v. v \<noteq> None) vals))
     \<and> (col \<noteq> ''bkt'' \<longrightarrow> distinct (map bucket data))"
    by blast
qed

theorem histogram_buckets_ascending_counted_witness:
  "histogram demo_world ''public'' ''t'' ''id'' 2 [] =
     (Inr [\<lparr>bucket = 1, count = 1, min_v = Some (Finite 1), max_v = Some (Finite 2)\<rparr>,
           \<lparr>bucket = 3, count = 2, min_v = Some (Finite 1), max_v = Some (Finite 2)\<rparr>],
      [Execute (HistogramQ ''public'' ''t'' ''id'' 2)])
   \<and> sorted (map bucket
         [\<lparr>bucket = 1, count = 1, min_v = Some (Finite 1), max_v = Some (Finite 2)\<rparr>,
          \<lparr>bucket = 3, count = 2, min_v = Some (Finite 1), max_v = Some (Finite 2)\<rparr>])
   \<and> sum_list (map count
         [\<lparr>bucket = 1, count = 1, min_v = Some (Finite 1), max_v = Some (Finite 2)\<rparr>,
          \<lparr>bucket = 3, count = 2, min_v = Some (Finite 1), max_v = Some (Finite 2)\<rparr>])
       = int (length (filter (\<lambda>v. v \<noteq> None) [Some (1 :: rat), Some 2, None, Some 2]))"
  using histogram_buckets_ascending_counted
          [THEN mp, OF conjI [OF demo_pg_histogram demo_histogram]]
        demo_histogram
  by simp

text \<open>
  Claim C7: under the same reading of the statement, the \<^verbatim>\<open>min\<close> and \<^verbatim>\<open>max\<close> of every
  bucket are the floats of the least and of the greatest non-null value of the whole
  column, hence the same in all buckets of one histogram.
\<close>

theorem histogram_min_max_column_wide:
  "pg_histogram w sch tab col buckets = sql_histogram col vals buckets
   \<and> histogram w sch tab col buckets tr = (Inr data, tr') \<and> b \<in> set data \<longrightarrow>
     min_v b = Some (py_float (Min (set (non_null vals))))
     \<and> max_v b = Some (py_float (Max (set (non_null vals))))
     \<and> list_all (\<lambda>b'. min_v b' = min_v b \<and> max_v b' = max_v b) data"
proof
  assume a: "pg_histogram w sch tab col buckets = sql_histogram col vals buckets
   \<and> histogram w sch tab col buckets tr = (Inr data, tr') \<and> b \<in> set data"
  then obtain joined :: "(rat \<times> int) list" where
    d: "data = map (\<lambda>(bkt, ct, mn, mx).
                         \<lparr>bucket = bkt, count = ct,
                          min_v = map_option py_float mn, max_v = map_option py_float mx\<rparr>)
                    (sort_key fst
                       (map (\<lambda>g. (snd (hd g), int (length g),
                                   Some (Min (set (non_null vals))),
                                   Some (Max (set (non_null vals)))))
                          (map (\<lambda>k. filter (\<lambda>r. group_key col r = k) joined)
                             (remdups (map (group_key col) joined)))))"
    using histogram_result by blast
  have "\<forall>x\<in>set data. min_v x = Some (py_float (Min (set (non_null vals)))) \<and>
                       max_v x = Some (py_float (Max (set (non_null vals))))"
    unfolding d by auto
  with a show "min_v b = Some (py_float (Min (set (non_null vals))))
     \<and> max_v b = Some (py_float (Max (set (non_null vals))))
     \<and> list_all (\<lambda>b'. min_v b' = min_v b \<and> max_v b' = max_v b) data"
    by (auto simp: list_all_iff)
qed

theorem histogram_min_max_column_wide_witness:
  "histogram
      (demo_world\<lparr>pg_histogram := \<lambda>sch tab col buckets.
         sql_histogram col [Some (1 / 10), Some (3 / 10), None, Some (1 / 10)] buckets\<rparr>)
      ''public'' ''t'' ''price'' 2 [] =
     (Inr [\<lparr>bucket = 1, count = 2,
            min_v = Some (Finite (3602879701896397 / 36028797018963968)),
            max_v = Some (Finite (5404319552844595 / 18014398509481984))\<rparr>,
           \<lparr>bucket = 3, count = 1,
            min_v = Some (Finite (3602879701896397 / 36028797018963968)),
            max_v = Some (Finite (5404319552844595 / 18014398509481984))\<rparr>],
      [Execute (HistogramQ ''public'' ''t'' ''price'' 2)])
   \<and> Min (set (non_null [Some (1 / 10), Some (3 / 10), None, Some (1 / 10 :: rat)])) = 1 / 10
   \<and> Max (set (non_null [Some (1 / 10), Some (3 / 10), None, Some (1 / 10 :: rat)])) = 3 / 10
   \<and> py_float (1 / 10) = Finite (3602879701896397 / 36028797018963968)
   \<and> py_float (3 / 10) = Finite (5404319552844595 / 18014398509481984)"
proof -
  let ?vals = "[Some (1 / 10), Some (3 / 10), None, Some (1 / 10 :: rat)]"
  let ?w = "demo_world\<lparr>pg_histogram := \<lambda>sch tab col buckets. sql_histogram col ?vals buckets\<rparr>"
  let ?lo = "Finite (3602879701896397 / 36028797018963968)"
  let ?hi = "Finite (5404319552844595 / 18014398509481984)"
  let ?b = "\<lparr>bucket = 3, count = 1, min_v = Some ?lo, max_v = Some ?hi\<rparr>"
  have pg: "pg_histogram ?w ''public'' ''t'' ''price'' 2 = sql_histogram ''price'' ?vals 2"
    by simp
  have run: "histogram ?w ''public'' ''t'' ''price'' 2 [] =
     (Inr [\<lparr>bucket = 1, count = 2, min_v = Some ?lo, max_v = Some ?hi\<rparr>, ?b],
      [Execute (HistogramQ ''public'' ''t'' ''price'' 2)])"
    by (simp add: histogram_def execute_def price_sql_histogram py_float_def
        binary64_tenth binary64_three_tenths)
  have m: "?b \<in> set [\<lparr>bucket = 1, count = 2, min_v = Some ?lo, max_v = Some ?hi\<rparr>, ?b]"
    by simp
  have mn: "Min (set (non_null ?vals)) = 1 / 10" and mx: "Max (set (non_null ?vals)) = 3 / 10"
    by (simp_all add: non_null_def)
  from histogram_min_max_column_wide [THEN mp, OF conjI [OF pg conjI [OF run m]]]
  have "py_float (1 / 10) = ?lo \<and> py_float (3 / 10) = ?hi"
    by (simp add: mn mx)
  with run mn mx show ?thesis by simp
qed

section \<open>Properties of the table parameter and of invalid names\<close>

lemma split_table_qualified:
  assumes "CHR ''.'' \<in> set tbl"
  shows "tbl = fst (split_table tbl) @ ''.'' @ snd (split_table tbl) \<and>
         CHR ''.'' \<notin> set (fst (split_table tbl))"
proof -
  let ?P = "\<lambda>c. c \<noteq> CHR ''.''"
  from assms have ne: "dropWhile ?P tbl \<noteq> []" by (simp add: dropWhile_eq_Nil_conv)
  then have "\<not> ?P (hd (dropWhile ?P tbl))" by (rule hd_dropWhile)
  with ne have d: "dropWhile ?P tbl = CHR ''.'' # tl (dropWhile ?P tbl)"
    by (cases "dropWhile ?P tbl") simp_all
  have "tbl = takeWhile ?P tbl @ dropWhile ?P tbl" by simp
  with d have "tbl = takeWhile ?P tbl @ ''.'' @ tl (dropWhile ?P tbl)" by simp
  moreover have "CHR ''.'' \<notin> set (takeWhile ?P tbl)"
    using set_takeWhileD by fastforce
  ultimately show ?thesis using assms by (simp add: split_table_def)
qed

lemma do_GET_table_param:
  assumes "split_table a = split_table b"
  shows "do_GET w path (qs(''table'' \<mapsto> a # vs)) tr = do_GET w path (qs(''table'' \<mapsto> b # vs)) tr"
proof -
  have "api_summary w (qs(''table'' \<mapsto> a # vs)) tr = api_summary w (qs(''table'' \<mapsto> b # vs)) tr"
    by (simp add: api_summary_def query_param_def assms cong: sum.case_cong)
  moreover have "api_histogram w (qs(''table'' \<mapsto> a # vs)) tr
                   = api_histogram w (qs(''table'' \<mapsto> b # vs)) tr"
    by (simp add: api_histogram_def query_param_def assms cong: sum.case_cong)
  moreover have "api_preview w (qs(''table'' \<mapsto> a # vs)) tr
                   = api_preview w (qs(''table'' \<mapsto> b # vs)) tr"
    by (simp add: api_preview_def query_param_def assms cong: sum.case_cong)
  ultimately show ?thesis by (simp add: do_GET_def)
qed

text \<open>
  Claim C8: a table parameter that contains a dot is split at its first dot into schema
  and table; one without a dot gets the schema \<^verbatim>\<open>public\<close>, and every request answers
  the unqualified name exactly as it answers the name qualified with \<^verbatim>\<open>public.\<close>: the
  same response and the same statements, on every path.
\<close>

theorem unqualified_table_is_public:
  "(CHR ''.'' \<in> set tbl \<longrightarrow>
      tbl = fst (split_table tbl) @ ''.'' @ snd (split_table tbl)
      \<and> CHR ''.'' \<notin> set (fst (split_table tbl)))
   \<and> (CHR ''.'' \<notin> set tbl \<longrightarrow>
        split_table tbl = (''public'', tbl)
        \<and> split_table (''public.'' @ tbl) = (''public'', tbl)
        \<and> do_GET w path (qs(''table'' \<mapsto> tbl # vs)) tr =
            do_GET w path (qs(''table'' \<mapsto> (''public.'' @ tbl) # vs)) tr)"
proof (intro conjI impI)
  assume "CHR ''.'' \<in> set tbl"
  then show "tbl = fst (split_table tbl) @ ''.'' @ snd (split_table tbl)"
    and "CHR ''.'' \<notin> set (fst (split_table tbl))"
    using split_table_qualified by blast+
next
  assume a: "CHR ''.'' \<notin> set tbl"
  then show "split_table tbl = (''public'', tbl)" by (simp add: split_table_def)
  from a show "split_table (''public.'' @ tbl) = (''public'', tbl)"
    by (simp add: split_table_def)
  from a show "do_GET w path (qs(''table'' \<mapsto> tbl # vs)) tr =
            do_GET w path (qs(''table'' \<mapsto> (''public.'' @ tbl) # vs)) tr"
    by (intro do_GET_table_param) (simp add: split_table_def)
qed

theorem unqualified_table_is_public_witness:
  "CHR ''.'' \<notin> set ''t''
   \<and> split_table ''t'' = (''public'', ''t'')
   \<and> do_GET demo_world ''/api/summary'' [''table'' \<mapsto> [''t'']] [] =
       do_GET demo_world ''/api/summary'' [''table'' \<mapsto> [''public.t'']] []
   \<and> CHR ''.'' \<in> set ''sales.orders.v2''
   \<and> split_table ''sales.orders.v2'' = (''sales'', ''orders.v2'')
   \<and> ''sales.orders.v2'' =
       fst (split_table ''sales.orders.v2'') @ ''.'' @ snd (split_table ''sales.orders.v2'')"
proof -
  have u: "CHR ''.'' \<notin> set ''t''" by simp
  have q: "CHR ''.'' \<in> set ''sales.orders.v2''" by simp
  have s: "split_table ''sales.orders.v2'' = (''sales'', ''orders.v2'')"
    by (simp add: split_table_def)
  from unqualified_table_is_public
         [where tbl = "''t''" and w = demo_world and path = "''/api/summary''"
            and qs = Map.empty and vs = "[]" and tr = "[]", THEN conjunct2, rule_format, OF u]
       unqualified_table_is_public
         [where tbl = "''sales.orders.v2''", THEN conjunct1, rule_format, OF q]
       u q s
  show ?thesis by simp
qed

text \<open>
  A summary, histogram or preview request with a name the validator rejects is answered
  500 with a message, and its trace is unchanged: no connection is opened and no
  statement is issued.
\<close>

lemma invalid_identifier_no_query:
  assumes "prefix ''/api/summary'' path \<or> prefix ''/api/histogram'' path \<or> prefix ''/api/preview'' path"
    and "(\<exists>e. sanitize_ident (fst (split_table (query_param qs ''table'' []))) = Inl e)
      \<or> (\<exists>e. sanitize_ident (snd (split_table (query_param qs ''table'' []))) = Inl e)
      \<or> (prefix ''/api/histogram'' path \<and> (\<exists>e. sanitize_ident (query_param qs ''column'' []) = Inl e))"
  shows "\<exists>msg. do_GET w path qs tr = (\<lparr>status = 500, body = J_error msg\<rparr>, tr)"
proof -
  consider (s) "prefix ''/api/summary'' path" | (h) "prefix ''/api/histogram'' path"
    | (p) "prefix ''/api/preview'' path" using assms(1) by blast
  then show ?thesis
  proof cases
    case s
    with histogram_path [of path] assms(2)
    have "\<exists>e. api_summary w qs tr = (Inl e, tr)" by (intro api_summary_invalid) auto
    with s show ?thesis by (auto simp: do_GET_summary)
  next
    case h
    with assms(2) have "\<exists>e. api_histogram w qs tr = (Inl e, tr)"
      by (intro api_histogram_invalid) auto
    with h show ?thesis by (auto simp: do_GET_histogram)
  next
    case p
    with preview_path [of path] assms(2)
    have "\<exists>e. api_preview w qs tr = (Inl e, tr)" by (intro api_preview_invalid) auto
    with p show ?thesis by (auto simp: do_GET_preview)
  qed
qed

lemma demo_ident_1abc: "sanitize_ident ''1abc'' = Inl (ValueError ''Invalid identifier: 1abc'')"
  by (simp add: sanitize_ident_def IDENT_RE_match_def ident_start_def is_upper_def is_lower_def)

lemma demo_summary_1abc:
  "do_GET demo_world ''/api/summary'' [''table'' \<mapsto> [''1abc'']] [] =
     (\<lparr>status = 500, body = J_error ''Invalid identifier: 1abc''\<rparr>, [])"
  by (simp add: do_GET_summary api_summary_def query_param_def split_table_def
      demo_ident_public demo_ident_1abc)

text \<open>
  Claim C9, as stated, fails: the request \<^verbatim>\<open>/api/summary?table=1abc\<close> carries a name the
  validator rejects, and the status of the response is 500, which is not a 4xx status.
\<close>

theorem invalid_identifier_status_counterexample:
  "sanitize_ident ''1abc'' = Inl (ValueError ''Invalid identifier: 1abc'')
   \<and> status (fst (do_GET demo_world ''/api/summary'' [''table'' \<mapsto> [''1abc'']] [])) = 500
   \<and> \<not> (400 \<le> status (fst (do_GET demo_world ''/api/summary'' [''table'' \<mapsto> [''1abc'']] []))
         \<and> status (fst (do_GET demo_world ''/api/summary'' [''table'' \<mapsto> [''1abc'']] [])) < 500)"
  by (simp add: demo_ident_1abc demo_summary_1abc)

text \<open>
  Claim C9, amended: every summary, histogram or preview request that carries a schema,
  table or (for a histogram) column name the validator rejects is answered with status
  500 and an error message, by the handler's single \<^verbatim>\<open>except Exception\<close>.
\<close>

theorem invalid_identifier_status_500:
  "(prefix ''/api/summary'' path \<or> prefix ''/api/histogram'' path \<or> prefix ''/api/preview'' path)
   \<and> ((\<exists>e. sanitize_ident (fst (split_table (query_param qs ''table'' []))) = Inl e)
      \<or> (\<exists>e. sanitize_ident (snd (split_table (query_param qs ''table'' []))) = Inl e)
      \<or> (prefix ''/api/histogram'' path \<and>
           (\<exists>e. sanitize_ident (query_param qs ''column'' []) = Inl e)))
   \<longrightarrow> (\<exists>msg. fst (do_GET w path qs tr) = \<lparr>status = 500, body = J_error msg\<rparr>)"
proof
  assume a: "(prefix ''/api/summary'' path \<or> prefix ''/api/histogram'' path \<or> prefix ''/api/preview'' path)
   \<and> ((\<exists>e. sanitize_ident (fst (split_table (query_param qs ''table'' []))) = Inl e)
      \<or> (\<exists>e. sanitize_ident (snd (split_table (query_param qs ''table'' []))) = Inl e)
      \<or> (prefix ''/api/histogram'' path \<and>
           (\<exists>e. sanitize_ident (query_param qs ''column'' []) = Inl e)))"
  from invalid_identifier_no_query [OF conjunct1 [OF a] conjunct2 [OF a], of w tr]
  show "\<exists>msg. fst (do_GET w path qs tr) = \<lparr>status = 500, body = J_error msg\<rparr>" by auto
qed

theorem invalid_identifier_status_500_witness:
  "\<exists>msg. fst (do_GET demo_world ''/api/histogram''
                 [''table'' \<mapsto> [''t''], ''column'' \<mapsto> [''id; DROP TABLE t'']] [])
          = \<lparr>status = 500, body = J_error msg\<rparr>"
proof -
  let ?qs = "[''table'' \<mapsto> [''t''], ''column'' \<mapsto> [''id; DROP TABLE t'']]"
  have c: "sanitize_ident ''id; DROP TABLE t'' = Inl (ValueError ''Invalid identifier: id; DROP TABLE t'')"
    by (simp add: sanitize_ident_def IDENT_RE_match_def re_dollar_def ident_start_def
        ident_cont_def is_upper_def is_lower_def is_digit_def)
  have h: "(prefix ''/api/summary'' ''/api/histogram'' \<or> prefix ''/api/histogram'' ''/api/histogram''
            \<or> prefix ''/api/preview'' ''/api/histogram'')
   \<and> ((\<exists>e. sanitize_ident (fst (split_table (query_param ?qs ''table'' []))) = Inl e)
      \<or> (\<exists>e. sanitize_ident (snd (split_table (query_param ?qs ''table'' []))) = Inl e)
      \<or> (prefix ''/api/histogram'' ''/api/histogram'' \<and>
           (\<exists>e. sanitize_ident (query_param ?qs ''column'' []) = Inl e)))"
    by (simp add: query_param_def c)
  from invalid_identifier_status_500 [rule_format, OF h] show ?thesis .
qed

text \<open>
  Claim C1, at the request \<^verbatim>\<open>/api/summary?table=t%0A\<close>: the table name \<^verbatim>\<open>"t\n"\<close> is
  outside the grammar \<^verbatim>\<open>[A-Za-z_][A-Za-z0-9_]*\<close>, yet the validator returns it instead
  of raising, and the request goes on to connect and to query the catalog with it.
\<close>

theorem sanitize_ident_accepts_trailing_newline:
  "sanitize_ident ''t\<newline>'' = Inr ''t\<newline>'' \<and> \<not> ident_grammar ''t\<newline>''
   \<and> do_GET demo_world ''/api/summary'' [''table'' \<mapsto> [''t\<newline>'']] [] =
       (\<lparr>status = 404, body = J_error ''Tabla public.t\<newline> no encontrada''\<rparr>,
        [Connect ''postgresql://demo'', Execute (GetColumns ''public'' ''t\<newline>'')])"
proof -
  have s: "sanitize_ident ''t\<newline>'' = Inr ''t\<newline>''"
    by (simp add: sanitize_ident_def IDENT_RE_match_def re_dollar_def
        ident_start_def ident_cont_def is_upper_def is_lower_def is_digit_def)
  have g: "\<not> ident_grammar ''t\<newline>''"
    by (simp add: ident_grammar_def ident_cont_def is_upper_def is_lower_def is_digit_def)
  have "do_GET demo_world ''/api/summary'' [''table'' \<mapsto> [''t\<newline>'']] [] =
       (\<lparr>status = 404, body = J_error ''Tabla public.t\<newline> no encontrada''\<rparr>,
        [Connect ''postgresql://demo'', Execute (GetColumns ''public'' ''t\<newline>'')])"
    by (simp add: do_GET_summary api_summary_def query_param_def split_table_def
        demo_ident_public s connect_def get_columns_def execute_def demo_world_def)
  with s g show ?thesis by simp
qed

end
